theory Spec2Isabelle
  imports Main "HOL-Library.AList"
begin

section \<open>Calendar resources\<close>

text \<open>
  The script \<^verbatim>\<open>block-sync.js\<close> mirrors busy time from two source calendars onto a
  blocker calendar. It works on the Calendar service's event resources, which are plain
  JavaScript objects; a property that is \<^verbatim>\<open>undefined\<close> is \<open>None\<close> here.

  A start or end value \<^verbatim>\<open>{dateTime, date, timeZone}\<close>: a date-time value carries
  \<open>dateTime\<close> (and usually \<open>timeZone\<close>), an all-day value carries only \<open>date\<close>.
\<close>

record date_val =
  dateTime :: "string option"
  date :: "string option"
  timeZone :: "string option"

text \<open>
  An event resource as the service returns it (a source event, or a block read back from
  the blocker calendar). \<open>id'\<close> is the property \<^verbatim>\<open>id\<close>, \<open>end'\<close> the property \<^verbatim>\<open>end\<close>;
  an attendee is represented by its \<^verbatim>\<open>email\<close>, the only property the script reads.
\<close>

record event =
  id' :: string
  status :: "string option"
  summary :: "string option"
  description :: "string option"
  start :: "date_val option"
  end' :: "date_val option"
  recurrence :: "string list option"
  attendees :: "string list option"

text \<open>The object literal built at lines 213-222, the resource handed to \<^verbatim>\<open>insert\<close>.\<close>

record new_block =
  new_summary :: string
  new_description :: string
  new_start :: "date_val option"
  new_end :: "date_val option"
  new_attendees :: "string list"
  new_recurrence :: "string list option"

section \<open>Equality of dates and recurrences (lines 148-172)\<close>

text \<open>
  \<^verbatim>\<open>areDatesEqual\<close>: both falsy, or both objects whose \<^verbatim>\<open>dateTime\<close> and \<^verbatim>\<open>timeZone\<close>
  are strictly equal. The property \<^verbatim>\<open>date\<close> is not read.
\<close>

fun areDatesEqual :: "date_val option \<Rightarrow> date_val option \<Rightarrow> bool" where
  "areDatesEqual None None = True"
| "areDatesEqual None (Some date2) = False"
| "areDatesEqual (Some date1) None = False"
| "areDatesEqual (Some date1) (Some date2) =
     (dateTime date1 = dateTime date2 \<and> timeZone date1 = timeZone date2)"

text \<open>
  \<^verbatim>\<open>areRecurrencesEqual\<close> on the values \<^verbatim>\<open>event.recurrence ? event.recurrence : null\<close>;
  a recurrence is an array of rule strings (an array, also an empty one, is truthy).
\<close>

fun areRecurrencesEqual :: "string list option \<Rightarrow> string list option \<Rightarrow> bool" where
  "areRecurrencesEqual None None = True"
| "areRecurrencesEqual None (Some rec2) = False"
| "areRecurrencesEqual (Some rec1) None = False"
| "areRecurrencesEqual (Some rec1) (Some rec2) =
     (if length rec1 \<noteq> length rec2 then False
      else list_all (\<lambda>i. rec1 ! i = rec2 ! i) [0..<length rec1])"

section \<open>Recurring-instance ids (lines 90 and 94)\<close>

definition is_digit :: "char \<Rightarrow> bool" where
  "is_digit c = (c \<in> set ''0123456789'')"

text \<open>
  The characters the regular expression's \<^verbatim>\<open>.\<close> does not match. Ids are strings of
  8-bit characters here, so the separators U+2028 and U+2029 do not occur.
\<close>

definition is_line_terminator :: "char \<Rightarrow> bool" where
  "is_line_terminator c = (c = CHR 0x0A \<or> c = CHR 0x0D)"

text \<open>A whole string of the shape \<^verbatim>\<open>_\d{8}T\d{6}Z\<close> (17 characters).\<close>

definition timestamp_suffix :: "string \<Rightarrow> bool" where
  "timestamp_suffix s =
     (length s = 17 \<and> s ! 0 = CHR ''_'' \<and> list_all is_digit (take 8 (drop 1 s)) \<and>
      s ! 9 = CHR ''T'' \<and> list_all is_digit (take 6 (drop 10 s)) \<and> s ! 16 = CHR ''Z'')"

text \<open>\<^verbatim>\<open>event.id.match(/^.*_\d{8}T\d{6}Z$/)\<close>\<close>

definition matches_instance_id :: "string \<Rightarrow> bool" where
  "matches_instance_id s =
     (17 \<le> length s \<and> timestamp_suffix (drop (length s - 17) s) \<and>
      \<not> list_ex is_line_terminator (take (length s - 17) s))"

text \<open>\<^verbatim>\<open>event.id.replace(/_\d{8}T\d{6}Z$/, '')\<close>\<close>

definition strip_timestamp :: "string \<Rightarrow> string" where
  "strip_timestamp s =
     (if 17 \<le> length s \<and> timestamp_suffix (drop (length s - 17) s)
      then take (length s - 17) s else s)"

section \<open>The platform\<close>

text \<open>
  The Calendar service, the property stores, \<^verbatim>\<open>JSON\<close> and \<^verbatim>\<open>Date\<close> belong to the
  Apps Script platform, not to the script. They are a parameter of the model: a record of
  operations over a world \<open>'w\<close> that the script cannot see into. A service call answers
  with \<open>Inl message\<close> when it throws. Times are milliseconds since the epoch.
\<close>

datatype exn = TypeError | Exception string

record list_options =
  q' :: "string option"
  syncToken :: "string option"
  timeMin :: "string option"
  timeMax :: "string option"
  maxResults :: "nat option"
  pageToken :: "string option"

record list_response =
  items :: "event list option"
  nextPageToken :: "string option"
  nextSyncToken :: "string option"

text \<open>The script properties read by the entry points.\<close>

record props =
  schedulerCal :: string
  homeCal :: string
  blockerCal :: string
  homeEmail :: string
  workEmail :: string

text \<open>
  \<open>Date_addDays n d\<close> is \<^verbatim>\<open>d.setDate(d.getDate() + n)\<close>, \<open>Date_atHour h d\<close> is
  \<^verbatim>\<open>d.setHours(h); d.setMinutes(0); d.setSeconds(0); d.setMilliseconds(0)\<close> (both in the
  script's time zone); \<open>Date_parse\<close> answers \<open>None\<close> for an invalid date (\<^verbatim>\<open>NaN\<close>);
  \<open>JSON_parse\<close> answers \<open>None\<close> when it throws, and otherwise the object's entries.
\<close>

record 'w platform =
  Events_list :: "string \<Rightarrow> list_options \<Rightarrow> 'w \<Rightarrow> (string + list_response) \<times> 'w"
  Events_insert :: "new_block \<Rightarrow> string \<Rightarrow> 'w \<Rightarrow> (string + event) \<times> 'w"
  Events_update :: "event \<Rightarrow> string \<Rightarrow> string \<Rightarrow> 'w \<Rightarrow> (string + event) \<times> 'w"
  Events_remove :: "string \<Rightarrow> string \<Rightarrow> 'w \<Rightarrow> (string + unit) \<times> 'w"
  getScriptProperties :: "'w \<Rightarrow> props"
  getProperty :: "string \<Rightarrow> 'w \<Rightarrow> string option"
  setProperty :: "string \<Rightarrow> string \<Rightarrow> 'w \<Rightarrow> 'w"
  JSON_parse :: "string \<Rightarrow> (string \<times> string) list option"
  JSON_stringify :: "(string \<times> string) list \<Rightarrow> string"
  Date_now :: "'w \<Rightarrow> int"
  Date_parse :: "string \<Rightarrow> int option"
  Date_addDays :: "int \<Rightarrow> int \<Rightarrow> int"
  Date_atHour :: "int \<Rightarrow> int \<Rightarrow> int"
  Date_toISOString :: "int \<Rightarrow> string"

text \<open>
  Every call that can change the world is recorded, in order, with its arguments as the
  script passed them: this log is what the theorems below speak about.
\<close>

datatype call =
    EventsList string list_options
  | EventsInsert new_block string
  | EventsUpdate event string string
  | EventsRemove string string
  | SetProperty string string

record 'w state =
  world :: 'w
  calls :: "call list"

definition invoke :: "call \<Rightarrow> ('w \<Rightarrow> 'a \<times> 'w) \<Rightarrow> 'w state \<Rightarrow> 'a \<times> 'w state" where
  "invoke c f s = (case f (world s) of (r, w) \<Rightarrow> (r, \<lparr>world = w, calls = calls s @ [c]\<rparr>))"

definition Calendar_Events_list ::
  "'w platform \<Rightarrow> string \<Rightarrow> list_options \<Rightarrow> 'w state \<Rightarrow> (string + list_response) \<times> 'w state" where
  "Calendar_Events_list P calendarId options =
     invoke (EventsList calendarId options) (Events_list P calendarId options)"

definition Calendar_Events_insert ::
  "'w platform \<Rightarrow> new_block \<Rightarrow> string \<Rightarrow> 'w state \<Rightarrow> (string + event) \<times> 'w state" where
  "Calendar_Events_insert P resource calendarId =
     invoke (EventsInsert resource calendarId) (Events_insert P resource calendarId)"

definition Calendar_Events_update ::
  "'w platform \<Rightarrow> event \<Rightarrow> string \<Rightarrow> string \<Rightarrow> 'w state \<Rightarrow> (string + event) \<times> 'w state" where
  "Calendar_Events_update P resource calendarId eventId =
     invoke (EventsUpdate resource calendarId eventId) (Events_update P resource calendarId eventId)"

definition Calendar_Events_remove ::
  "'w platform \<Rightarrow> string \<Rightarrow> string \<Rightarrow> 'w state \<Rightarrow> (string + unit) \<times> 'w state" where
  "Calendar_Events_remove P calendarId eventId =
     invoke (EventsRemove calendarId eventId) (Events_remove P calendarId eventId)"

definition properties_setProperty :: "'w platform \<Rightarrow> string \<Rightarrow> string \<Rightarrow> 'w state \<Rightarrow> 'w state" where
  "properties_setProperty P key val s =
     \<lparr>world = setProperty P key val (world s), calls = calls s @ [SetProperty key val]\<rparr>"

definition no_options :: list_options where
  "no_options = \<lparr>q' = None, syncToken = None, timeMin = None, timeMax = None,
                  maxResults = None, pageToken = None\<rparr>"

text \<open>A string-valued property in a condition: \<^verbatim>\<open>undefined\<close> and \<^verbatim>\<open>""\<close> are falsy.\<close>

definition truthy :: "string option \<Rightarrow> bool" where
  "truthy v = (case v of None \<Rightarrow> False | Some str \<Rightarrow> str \<noteq> [])"

text \<open>\<^verbatim>\<open>a || b\<close> on two string-valued properties.\<close>

definition js_or :: "string option \<Rightarrow> string option \<Rightarrow> string option" where
  "js_or a b = (if truthy a then a else b)"

fun startsWith :: "string \<Rightarrow> string \<Rightarrow> bool" where
  "startsWith str [] = True"
| "startsWith [] (c # t) = False"
| "startsWith (a # str) (c # t) = (a = c \<and> startsWith str t)"

text \<open>\<^verbatim>\<open>str.includes(t)\<close>\<close>

fun string_includes :: "string \<Rightarrow> string \<Rightarrow> bool" where
  "string_includes [] t = startsWith [] t"
| "string_includes (a # str) t = (startsWith (a # str) t \<or> string_includes str t)"

section \<open>Writes (lines 295-342)\<close>

text \<open>
  Each write helper wraps its service call in \<^verbatim>\<open>try\<close>/\<^verbatim>\<open>catch\<close>; the handler only logs
  to the console. \<^verbatim>\<open>createEvent\<close> returns the created event, or \<^verbatim>\<open>undefined\<close> after a failure.
\<close>

definition deleteEvent :: "'w platform \<Rightarrow> string \<Rightarrow> string \<Rightarrow> 'w state \<Rightarrow> 'w state" where
  "deleteEvent P calendarId eventId s =
     (case Calendar_Events_remove P calendarId eventId s of
        (Inr deletedEvent, s1) \<Rightarrow> s1
      | (Inl message, s1) \<Rightarrow> s1)"

definition updateEvent :: "'w platform \<Rightarrow> string \<Rightarrow> string \<Rightarrow> event \<Rightarrow> 'w state \<Rightarrow> 'w state" where
  "updateEvent P calendarId eventId ev s =
     (case Calendar_Events_update P ev calendarId eventId s of
        (Inr updatedEvent, s1) \<Rightarrow> s1
      | (Inl message, s1) \<Rightarrow> s1)"

definition createEvent :: "'w platform \<Rightarrow> string \<Rightarrow> new_block \<Rightarrow> 'w state \<Rightarrow> event option \<times> 'w state" where
  "createEvent P calendarId block s =
     (case Calendar_Events_insert P block calendarId s of
        (Inr createdEvent, s1) \<Rightarrow> (Some createdEvent, s1)
      | (Inl message, s1) \<Rightarrow> (None, s1))"

section \<open>Block lookup (lines 246-286)\<close>

text \<open>
  The Block Lookup Cache maps an event id to the block found for it, or to \<^verbatim>\<open>null\<close>
  (\<open>Some None\<close>); \<open>None\<close> is an id not looked up yet (\<^verbatim>\<open>hasOwnProperty\<close> is false).
  The Creation Tracker maps an id to \<^verbatim>\<open>true\<close>. Both are read as own properties: ids
  are taken not to name a member of \<^verbatim>\<open>Object.prototype\<close>.
  The service call of the lookup is outside any \<^verbatim>\<open>try\<close>: its exception leaves
  \<^verbatim>\<open>processCalendar\<close>.
\<close>

type_synonym cache = "string \<rightharpoonup> event option"
type_synonym tracker = "string \<rightharpoonup> bool"

definition checkForBlockOnCalendar ::
  "'w platform \<Rightarrow> string \<Rightarrow> string \<Rightarrow> cache \<Rightarrow> 'w state \<Rightarrow> (exn + event option) \<times> cache \<times> 'w state" where
  "checkForBlockOnCalendar P blockerCalId eventId blockLookupCache s =
     (case blockLookupCache eventId of
        Some cached \<Rightarrow> (Inr cached, blockLookupCache, s)
      | None \<Rightarrow>
         (case Calendar_Events_list P blockerCalId (no_options\<lparr>q' := Some eventId\<rparr>) s of
            (Inl message, s1) \<Rightarrow> (Inl (Exception message), blockLookupCache, s1)
          | (Inr blocks, s1) \<Rightarrow>
             (case items blocks of
                None \<Rightarrow> (Inr None, blockLookupCache(eventId \<mapsto> None), s1)
              | Some its \<Rightarrow>
                 if 0 < length its then
                   (case find (\<lambda>block. description block = Some eventId) its of
                      Some matchingBlock \<Rightarrow>
                        (Inr (Some matchingBlock), blockLookupCache(eventId \<mapsto> Some matchingBlock), s1)
                    | None \<Rightarrow> (Inr None, blockLookupCache(eventId \<mapsto> None), s1))
                 else (Inr None, blockLookupCache(eventId \<mapsto> None), s1))))"

section \<open>Processing one event (the body of the loop, lines 85-232)\<close>

text \<open>
  \<^verbatim>\<open>new Date(x)\<close> for a string or \<^verbatim>\<open>undefined\<close>: an invalid date is \<open>None\<close>.
\<close>

definition new_Date :: "'w platform \<Rightarrow> string option \<Rightarrow> int option" where
  "new_Date P x = (case x of None \<Rightarrow> None | Some str \<Rightarrow> Date_parse P str)"

text \<open>
  \<^verbatim>\<open>Math.floor((eventStartDate - today) / (1000 * 60 * 60 * 24))\<close>. The script divides in
  floating point; on whole milliseconds the test \<^verbatim>\<open>daysDifference > 90\<close> agrees with the
  one on the exact floor, which is what is computed here. \<^verbatim>\<open>NaN\<close> is \<open>None\<close>.
\<close>

definition daysDifference :: "int option \<Rightarrow> int \<Rightarrow> int option" where
  "daysDifference eventStartDate today =
     map_option (\<lambda>t. (t - today) div (1000 * 60 * 60 * 24)) eventStartDate"

text \<open>\<^verbatim>\<open>d > n\<close>, false when \<^verbatim>\<open>d\<close> is \<^verbatim>\<open>NaN\<close>.\<close>

definition greater_than :: "int option \<Rightarrow> int \<Rightarrow> bool" where
  "greater_than d n = (case d of None \<Rightarrow> False | Some k \<Rightarrow> n < k)"

text \<open>
  Lines 89-118: what the loop does with a recurring instance before anything else.
  \<open>Skip\<close> is \<^verbatim>\<open>continue\<close>; \<open>Proceed\<close> falls through to the rest of the body.
  \<^verbatim>\<open>event.start.dateTime\<close> on an event without \<^verbatim>\<open>start\<close> throws a \<^verbatim>\<open>TypeError\<close>.
\<close>

datatype resolution = Skip | Proceed

definition resolveInstance ::
  "'w platform \<Rightarrow> string \<Rightarrow> event \<Rightarrow> cache \<Rightarrow> 'w state \<Rightarrow> (exn + resolution) \<times> cache \<times> 'w state" where
  "resolveInstance P blockerCalId ev blockLookupCache s =
     (if matches_instance_id (id' ev) then
        (case checkForBlockOnCalendar P blockerCalId (strip_timestamp (id' ev)) blockLookupCache s of
           (Inl e, cache1, s1) \<Rightarrow> (Inl e, cache1, s1)
         | (Inr (Some parentBlock), cache1, s1) \<Rightarrow> (Inr Skip, cache1, s1)
         | (Inr None, cache1, s1) \<Rightarrow>
            (case start ev of
               None \<Rightarrow> (Inl TypeError, cache1, s1)
             | Some st \<Rightarrow>
                if greater_than
                     (daysDifference (new_Date P (js_or (dateTime st) (date st))) (Date_now P (world s1))) 90
                then (Inr Skip, cache1, s1)
                else (Inr Proceed, cache1, s1)))
      else (Inr Proceed, blockLookupCache, s))"

text \<open>
  Lines 120-133: the home address is added to the source event's attendees and the event
  is written back to the source calendar. The event is changed in place, so the changed
  event is the one the rest of the body sees.
\<close>

definition addAttendee ::
  "'w platform \<Rightarrow> string \<Rightarrow> string \<Rightarrow> bool \<Rightarrow> event \<Rightarrow> 'w state \<Rightarrow> event \<times> 'w state" where
  "addAttendee P sourceCalId homeEmail' addAttendees ev s =
     (if addAttendees \<and> status ev \<noteq> Some ''cancelled'' then
        (if (case attendees ev of None \<Rightarrow> False | Some as \<Rightarrow> 0 < length as) then
           (if homeEmail' \<notin> set (the (attendees ev)) then
              (let ev1 = ev\<lparr>attendees := Some (the (attendees ev) @ [homeEmail'])\<rparr>
               in (ev1, updateEvent P sourceCalId (id' ev1) ev1 s))
            else (ev, s))
         else
           (let ev1 = ev\<lparr>attendees := Some [homeEmail']\<rparr>
            in (ev1, updateEvent P sourceCalId (id' ev1) ev1 s)))
      else (ev, s))"

text \<open>The summary of every block: a green circle (U+1F7E2, in UTF-8) and \<^verbatim>\<open> BLOCK\<close>.\<close>

definition block_summary :: string where
  "block_summary = [CHR 0xF0, CHR 0x9F, CHR 0x9F, CHR 0xA2] @ '' BLOCK''"

text \<open>
  Lines 135-231: the lookup for the event's own id and the decision. The block found is
  the object held in the cache, so the assignments to it at lines 190-195 and the cache
  entry written at line 199 are the same changed block.
\<close>

definition reconcile ::
  "'w platform \<Rightarrow> string \<Rightarrow> string \<Rightarrow> event \<Rightarrow> cache \<Rightarrow> tracker \<Rightarrow> 'w state
     \<Rightarrow> (exn + unit) \<times> cache \<times> tracker \<times> 'w state" where
  "reconcile P blockerCalId workEmail' ev blockLookupCache crossCalendarBlockTracker s =
     (case checkForBlockOnCalendar P blockerCalId (id' ev) blockLookupCache s of
        (Inl e, cache1, s1) \<Rightarrow> (Inl e, cache1, crossCalendarBlockTracker, s1)
      | (Inr (Some matchingBlock), cache1, s1) \<Rightarrow>
          if status ev = Some ''cancelled'' then
            (Inr (), cache1(id' ev \<mapsto> None), crossCalendarBlockTracker,
             deleteEvent P blockerCalId (id' matchingBlock) s1)
          else
            (let startChanged = \<not> areDatesEqual (start matchingBlock) (start ev);
                 endChanged = \<not> areDatesEqual (end' matchingBlock) (end' ev);
                 recurrenceChanged = \<not> areRecurrencesEqual (recurrence matchingBlock) (recurrence ev)
             in if startChanged \<or> endChanged \<or> recurrenceChanged then
                  (let block1 = matchingBlock\<lparr>start := start ev, end' := end' ev,
                                               recurrence := recurrence ev\<rparr>
                   in (Inr (), cache1(id' ev \<mapsto> Some block1), crossCalendarBlockTracker,
                       updateEvent P blockerCalId (id' block1) block1 s1))
                else (Inr (), cache1, crossCalendarBlockTracker, s1))
      | (Inr None, cache1, s1) \<Rightarrow>
          if status ev \<noteq> Some ''cancelled'' then
            (if crossCalendarBlockTracker (id' ev) = Some True then
               (Inr (), cache1, crossCalendarBlockTracker, s1)
             else
               (case createEvent P blockerCalId
                       \<lparr>new_summary = block_summary, new_description = id' ev,
                        new_start = start ev, new_end = end' ev,
                        new_attendees = [workEmail'], new_recurrence = recurrence ev\<rparr> s1 of
                  (Some createdBlock, s2) \<Rightarrow>
                    (Inr (), cache1(id' ev \<mapsto> Some createdBlock),
                     crossCalendarBlockTracker(id' ev \<mapsto> True), s2)
                | (None, s2) \<Rightarrow>
                    (Inr (), cache1, crossCalendarBlockTracker(id' ev \<mapsto> True), s2)))
          else (Inr (), cache1, crossCalendarBlockTracker, s1))"

text \<open>What the loop does with an event that is past the recurring-instance check.\<close>

definition processOrdinary ::
  "'w platform \<Rightarrow> string \<Rightarrow> string \<Rightarrow> string \<Rightarrow> string \<Rightarrow> bool \<Rightarrow> event \<Rightarrow> cache \<Rightarrow> tracker \<Rightarrow> 'w state
     \<Rightarrow> (exn + unit) \<times> cache \<times> tracker \<times> 'w state" where
  "processOrdinary P sourceCalId blockerCalId homeEmail' workEmail' addAttendees ev
       blockLookupCache crossCalendarBlockTracker s =
     (case addAttendee P sourceCalId homeEmail' addAttendees ev s of
        (ev1, s1) \<Rightarrow> reconcile P blockerCalId workEmail' ev1 blockLookupCache crossCalendarBlockTracker s1)"

definition processEvent ::
  "'w platform \<Rightarrow> string \<Rightarrow> string \<Rightarrow> string \<Rightarrow> string \<Rightarrow> bool \<Rightarrow> event \<Rightarrow> cache \<Rightarrow> tracker \<Rightarrow> 'w state
     \<Rightarrow> (exn + unit) \<times> cache \<times> tracker \<times> 'w state" where
  "processEvent P sourceCalId blockerCalId homeEmail' workEmail' addAttendees ev
       blockLookupCache crossCalendarBlockTracker s =
     (case resolveInstance P blockerCalId ev blockLookupCache s of
        (Inl e, cache1, s1) \<Rightarrow> (Inl e, cache1, crossCalendarBlockTracker, s1)
      | (Inr Skip, cache1, s1) \<Rightarrow> (Inr (), cache1, crossCalendarBlockTracker, s1)
      | (Inr Proceed, cache1, s1) \<Rightarrow>
          processOrdinary P sourceCalId blockerCalId homeEmail' workEmail' addAttendees ev
            cache1 crossCalendarBlockTracker s1)"

section \<open>processCalendar (lines 73-235)\<close>

text \<open>The \<^verbatim>\<open>for\<close> loop: an exception ends it, and leaves the function.\<close>

fun processEvents ::
  "'w platform \<Rightarrow> string \<Rightarrow> string \<Rightarrow> string \<Rightarrow> string \<Rightarrow> bool \<Rightarrow> event list \<Rightarrow> cache \<Rightarrow> tracker \<Rightarrow> 'w state
     \<Rightarrow> (exn + unit) \<times> cache \<times> tracker \<times> 'w state" where
  "processEvents P sourceCalId blockerCalId homeEmail' workEmail' addAttendees []
       blockLookupCache crossCalendarBlockTracker s =
     (Inr (), blockLookupCache, crossCalendarBlockTracker, s)"
| "processEvents P sourceCalId blockerCalId homeEmail' workEmail' addAttendees (ev # events)
       blockLookupCache crossCalendarBlockTracker s =
     (case processEvent P sourceCalId blockerCalId homeEmail' workEmail' addAttendees ev
             blockLookupCache crossCalendarBlockTracker s of
        (Inl e, cache1, tracker1, s1) \<Rightarrow> (Inl e, cache1, tracker1, s1)
      | (Inr u, cache1, tracker1, s1) \<Rightarrow>
          processEvents P sourceCalId blockerCalId homeEmail' workEmail' addAttendees events
            cache1 tracker1 s1)"

text \<open>
  The tracker is the caller's object, changed in place: it is returned with the state.
  The lookup cache is local and starts empty.
\<close>

definition processCalendar ::
  "'w platform \<Rightarrow> string \<Rightarrow> string \<Rightarrow> string \<Rightarrow> string \<Rightarrow> bool \<Rightarrow> bool \<Rightarrow> tracker \<Rightarrow> event list \<Rightarrow> 'w state
     \<Rightarrow> (exn + unit) \<times> tracker \<times> 'w state" where
  "processCalendar P sourceCalId blockerCalId homeEmail' workEmail' addAttendees dryRun
       crossCalendarBlockTracker events s =
     (if dryRun then (Inr (), crossCalendarBlockTracker, s)
      else
        (case processEvents P sourceCalId blockerCalId homeEmail' workEmail' addAttendees events
                Map.empty crossCalendarBlockTracker s of
           (r, cache1, tracker1, s1) \<Rightarrow> (r, tracker1, s1)))"

section \<open>Fetching (lines 352-467)\<close>

text \<open>
  Both fetch functions page with a \<^verbatim>\<open>do\<close>/\<^verbatim>\<open>while\<close> loop that runs as long as the service
  hands out page tokens, which it may do forever. The loops take fuel, one unit per service
  call; the result \<open>None\<close> is a fetch that has not returned when the fuel is spent (the
  state reached is still given).
\<close>

text \<open>\<^verbatim>\<open>evts.concat(events.items)\<close> when \<^verbatim>\<open>events.items\<close> is a non-empty array.\<close>

definition concat_items :: "event list \<Rightarrow> list_response \<Rightarrow> event list" where
  "concat_items evts events =
     (case items events of
        None \<Rightarrow> evts
      | Some its \<Rightarrow> if 0 < length its then evts @ its else evts)"

fun fetchEventsByTimeWindow_pages ::
  "nat \<Rightarrow> 'w platform \<Rightarrow> string \<Rightarrow> list_options \<Rightarrow> string option \<Rightarrow> event list \<Rightarrow> 'w state
     \<Rightarrow> (exn + event list) option \<times> 'w state" where
  "fetchEventsByTimeWindow_pages 0 P calendarId options pageToken' evts s = (None, s)"
| "fetchEventsByTimeWindow_pages (Suc fuel) P calendarId options pageToken' evts s =
     (case Calendar_Events_list P calendarId (options\<lparr>pageToken := pageToken'\<rparr>) s of
        (Inl message, s1) \<Rightarrow> (Some (Inl (Exception message)), s1)
      | (Inr events, s1) \<Rightarrow>
          if truthy (nextPageToken events) then
            fetchEventsByTimeWindow_pages fuel P calendarId options (nextPageToken events)
              (concat_items evts events) s1
          else (Some (Inr (concat_items evts events)), s1))"

definition fetchEventsByTimeWindow ::
  "nat \<Rightarrow> 'w platform \<Rightarrow> string \<Rightarrow> int \<Rightarrow> int \<Rightarrow> 'w state \<Rightarrow> (exn + event list) option \<times> 'w state" where
  "fetchEventsByTimeWindow fuel P calendarId startDate endDate s =
     fetchEventsByTimeWindow_pages fuel P calendarId
       (no_options\<lparr>timeMin := Some (Date_toISOString P startDate),
                    timeMax := Some (Date_toISOString P endDate)\<rparr>) None [] s"

definition getRelativeDate :: "'w platform \<Rightarrow> int \<Rightarrow> int \<Rightarrow> 'w \<Rightarrow> int" where
  "getRelativeDate P daysOffset hour w = Date_atHour P hour (Date_addDays P daysOffset (Date_now P w))"

text \<open>
  Lines 410-420: the token map, read from the user property \<^verbatim>\<open>syncTokens\<close>; an empty or
  unparsable property gives the empty map.
\<close>

definition read_syncTokens :: "'w platform \<Rightarrow> 'w \<Rightarrow> (string \<times> string) list" where
  "read_syncTokens P w =
     (case getProperty P ''syncTokens'' w of
        None \<Rightarrow> []
      | Some syncTokensStr \<Rightarrow>
          if syncTokensStr = [] then []
          else (case JSON_parse P syncTokensStr of None \<Rightarrow> [] | Some parsed \<Rightarrow> parsed))"

text \<open>Lines 422-432: the options of the first request.\<close>

definition token_options :: "'w platform \<Rightarrow> string \<Rightarrow> bool \<Rightarrow> (string \<times> string) list \<Rightarrow> 'w \<Rightarrow> list_options" where
  "token_options P calendarId fullSync syncTokens w =
     (if \<not> fullSync \<and> truthy (map_of syncTokens calendarId)
      then no_options\<lparr>maxResults := Some 100, syncToken := map_of syncTokens calendarId\<rparr>
      else no_options\<lparr>maxResults := Some 100,
                       timeMin := Some (Date_toISOString P (getRelativeDate P (- 30) 0 w))\<rparr>)"

text \<open>Lines 460-464: the new token is stored after the last page.\<close>

definition store_syncToken ::
  "'w platform \<Rightarrow> string \<Rightarrow> (string \<times> string) list \<Rightarrow> list_response \<Rightarrow> 'w state \<Rightarrow> 'w state" where
  "store_syncToken P calendarId syncTokens events s =
     (case nextSyncToken events of
        None \<Rightarrow> s
      | Some tok \<Rightarrow>
          if tok = [] then s
          else properties_setProperty P ''syncTokens''
                 (JSON_stringify P (AList.update calendarId tok syncTokens)) s)"

fun fetchEventsByToken ::
  "nat \<Rightarrow> 'w platform \<Rightarrow> string \<Rightarrow> bool \<Rightarrow> 'w state \<Rightarrow> (exn + event list) option \<times> 'w state"
and fetchEventsByToken_pages ::
  "nat \<Rightarrow> 'w platform \<Rightarrow> string \<Rightarrow> (string \<times> string) list \<Rightarrow> list_options \<Rightarrow> string option
     \<Rightarrow> event list \<Rightarrow> 'w state \<Rightarrow> (exn + event list) option \<times> 'w state" where
  "fetchEventsByToken fuel P calendarId fullSync s =
     fetchEventsByToken_pages fuel P calendarId (read_syncTokens P (world s))
       (token_options P calendarId fullSync (read_syncTokens P (world s)) (world s)) None [] s"
| "fetchEventsByToken_pages 0 P calendarId syncTokens options pageToken' evts s = (None, s)"
| "fetchEventsByToken_pages (Suc fuel) P calendarId syncTokens options pageToken' evts s =
     (case Calendar_Events_list P calendarId (options\<lparr>pageToken := pageToken'\<rparr>) s of
        (Inl message, s1) \<Rightarrow>
          if string_includes message ''Sync token is no longer valid'' then
            fetchEventsByToken fuel P calendarId True
              (properties_setProperty P ''syncTokens''
                 (JSON_stringify P (AList.delete calendarId syncTokens)) s1)
          else (Some (Inl (Exception message)), s1)
      | (Inr events, s1) \<Rightarrow>
          if truthy (nextPageToken events) then
            fetchEventsByToken_pages fuel P calendarId syncTokens options (nextPageToken events)
              (concat_items evts events) s1
          else (Some (Inr (concat_items evts events)),
                store_syncToken P calendarId syncTokens events s1))"

section \<open>The entry points (lines 5-57)\<close>

text \<open>What both entry points do with the two fetched lists (lines 21-25 and 52-56).\<close>

definition processBoth ::
  "'w platform \<Rightarrow> props \<Rightarrow> tracker \<Rightarrow> event list \<Rightarrow> event list \<Rightarrow> 'w state \<Rightarrow> (exn + unit) \<times> 'w state" where
  "processBoth P props' crossCalendarBlockTracker schedulerEvents homeEvents s =
     (case processCalendar P (schedulerCal props') (blockerCal props') (homeEmail props')
             (workEmail props') True False crossCalendarBlockTracker schedulerEvents s of
        (Inl e, tracker1, s1) \<Rightarrow> (Inl e, s1)
      | (Inr u, tracker1, s1) \<Rightarrow>
          (case processCalendar P (homeCal props') (blockerCal props') (homeEmail props')
                  (workEmail props') False False tracker1 homeEvents s1 of
             (r, tracker2, s2) \<Rightarrow> (r, s2)))"

definition reactiveEntryPoint :: "nat \<Rightarrow> 'w platform \<Rightarrow> 'w state \<Rightarrow> (exn + unit) option \<times> 'w state" where
  "reactiveEntryPoint fuel P s =
     (let props' = getScriptProperties P (world s) in
      case fetchEventsByToken fuel P (schedulerCal props') False s of
        (None, s1) \<Rightarrow> (None, s1)
      | (Some (Inl e), s1) \<Rightarrow> (Some (Inl e), s1)
      | (Some (Inr schedulerEvents), s1) \<Rightarrow>
          (case fetchEventsByToken fuel P (homeCal props') False s1 of
             (None, s2) \<Rightarrow> (None, s2)
           | (Some (Inl e), s2) \<Rightarrow> (Some (Inl e), s2)
           | (Some (Inr homeEvents), s2) \<Rightarrow>
               (case processBoth P props' Map.empty schedulerEvents homeEvents s2 of
                  (r, s3) \<Rightarrow> (Some r, s3))))"

definition proactiveEntryPoint :: "nat \<Rightarrow> 'w platform \<Rightarrow> 'w state \<Rightarrow> (exn + unit) option \<times> 'w state" where
  "proactiveEntryPoint fuel P s =
     (let props' = getScriptProperties P (world s);
          today = Date_now P (world s);
          futureDate = Date_addDays P 90 today in
      case fetchEventsByTimeWindow fuel P (schedulerCal props') today futureDate s of
        (None, s1) \<Rightarrow> (None, s1)
      | (Some (Inl e), s1) \<Rightarrow> (Some (Inl e), s1)
      | (Some (Inr schedulerEvents), s1) \<Rightarrow>
          (case fetchEventsByTimeWindow fuel P (homeCal props') today futureDate s1 of
             (None, s2) \<Rightarrow> (None, s2)
           | (Some (Inl e), s2) \<Rightarrow> (Some (Inl e), s2)
           | (Some (Inr homeEvents), s2) \<Rightarrow>
               (case processBoth P props' Map.empty schedulerEvents homeEvents s2 of
                  (r, s3) \<Rightarrow> (Some r, s3))))"

section \<open>Reading the log\<close>

text \<open>The calls a stretch of the run has added to the log.\<close>

definition new_calls :: "'w state \<Rightarrow> 'w state \<Rightarrow> call list" where
  "new_calls s s1 = drop (length (calls s)) (calls s1)"

definition is_write :: "call \<Rightarrow> bool" where
  "is_write c =
     (case c of EventsInsert b cal \<Rightarrow> True | EventsUpdate ev cal eid \<Rightarrow> True
      | EventsRemove cal eid \<Rightarrow> True | EventsList cal opts \<Rightarrow> False | SetProperty k v \<Rightarrow> False)"

text \<open>A create operation for the source event \<open>i\<close>: an insert of a block described by \<open>i\<close>.\<close>

definition is_create_for :: "string \<Rightarrow> call \<Rightarrow> bool" where
  "is_create_for i c =
     (case c of EventsInsert b cal \<Rightarrow> new_description b = i | EventsUpdate ev cal eid \<Rightarrow> False
      | EventsRemove cal eid \<Rightarrow> False | EventsList cal opts \<Rightarrow> False | SetProperty k v \<Rightarrow> False)"

definition creates_for :: "string \<Rightarrow> call list \<Rightarrow> nat" where
  "creates_for i cs = length (filter (is_create_for i) cs)"

text \<open>
  A call of the fetch of calendar \<open>cal\<close>: a list request for \<open>cal\<close> without search text,
  or a write of the token map. A call of the reconciliation: a lookup (a list request
  with search text) or a write to a calendar.
\<close>

definition is_fetch_call :: "string \<Rightarrow> call \<Rightarrow> bool" where
  "is_fetch_call cal c =
     (case c of EventsList cal1 opts \<Rightarrow> cal1 = cal \<and> q' opts = None | SetProperty k v \<Rightarrow> True
      | EventsInsert b cal1 \<Rightarrow> False | EventsUpdate ev cal1 eid \<Rightarrow> False | EventsRemove cal1 eid \<Rightarrow> False)"

definition is_reconcile_call :: "call \<Rightarrow> bool" where
  "is_reconcile_call c =
     (case c of EventsList cal opts \<Rightarrow> q' opts \<noteq> None | SetProperty k v \<Rightarrow> False
      | EventsInsert b cal \<Rightarrow> True | EventsUpdate ev cal eid \<Rightarrow> True | EventsRemove cal eid \<Rightarrow> True)"

text \<open>A request for a further page of a fetch under way, or a write of the token map.\<close>

definition is_later_page :: "call \<Rightarrow> bool" where
  "is_later_page c =
     (case c of EventsList cal opts \<Rightarrow> truthy (pageToken opts) | SetProperty k v \<Rightarrow> True
      | EventsInsert b cal \<Rightarrow> False | EventsUpdate ev cal eid \<Rightarrow> False | EventsRemove cal eid \<Rightarrow> False)"

text \<open>The first id the loop looks up for an event: the parent's for a recurring instance.\<close>

definition first_lookup :: "event \<Rightarrow> string" where
  "first_lookup ev = (if matches_instance_id (id' ev) then strip_timestamp (id' ev) else id' ev)"

text \<open>
  The block a search answer holds for an id: the first item whose description is exactly
  the id (lines 260-269).
\<close>

definition matching_block :: "list_response \<Rightarrow> string \<Rightarrow> event option" where
  "matching_block blocks eventId =
     (case items blocks of
        None \<Rightarrow> None
      | Some its \<Rightarrow> find (\<lambda>block. description block = Some eventId) its)"

text \<open>The id of the block that a lookup for \<open>eventId\<close>, made in state \<open>s\<close>, finds.\<close>

definition found_block_id :: "'w platform \<Rightarrow> string \<Rightarrow> string \<Rightarrow> cache \<Rightarrow> 'w state \<Rightarrow> string option" where
  "found_block_id P blockerCalId eventId blockLookupCache s =
     (case fst (checkForBlockOnCalendar P blockerCalId eventId blockLookupCache s) of
        Inr (Some block) \<Rightarrow> Some (id' block)
      | Inr None \<Rightarrow> None
      | Inl e \<Rightarrow> None)"

text \<open>
  A call made for the event id \<open>i\<close>, whose block (if one was found) has the id \<open>target\<close>:
  a lookup on the blocker calendar searching for \<open>i\<close>; an insert there of a block
  described by \<open>i\<close>; an update of the source event \<open>i\<close> on the source calendar; an update
  or a remove, on the blocker calendar, of the block found.
\<close>

definition keyed_by :: "string \<Rightarrow> string \<Rightarrow> string \<Rightarrow> string option \<Rightarrow> call \<Rightarrow> bool" where
  "keyed_by sourceCalId blockerCalId i target c =
     (case c of
        EventsList cal opts \<Rightarrow> cal = blockerCalId \<and> opts = no_options\<lparr>q' := Some i\<rparr>
      | EventsInsert b cal \<Rightarrow> cal = blockerCalId \<and> new_description b = i
      | EventsUpdate ev cal eid \<Rightarrow>
          eid = id' ev \<and> (cal = sourceCalId \<and> id' ev = i \<or> cal = blockerCalId \<and> target = Some (id' ev))
      | EventsRemove cal eid \<Rightarrow> cal = blockerCalId \<and> target = Some eid
      | SetProperty k v \<Rightarrow> False)"

text \<open>How many creates the tracker accounts for: one for a tracked id, none otherwise.\<close>

definition tracked :: "tracker \<Rightarrow> string \<Rightarrow> nat" where
  "tracked t i = (if t i = Some True then 1 else 0)"

section \<open>A test platform\<close>

text \<open>
  A small platform on which the model runs on concrete inputs. The service answers list
  requests from a fixed table (as a search index that does not yet show the run's own
  writes), writes all succeed or all fail, the clock stands still at
  2025-03-03T12:00:00Z, days are UTC days, and the world is the user property store.
  The codec and the date functions know the few strings the examples use.
\<close>

definition test_props :: props where
  "test_props = \<lparr>schedulerCal = ''scheduler'', homeCal = ''home'', blockerCal = ''blocker'',
                  homeEmail = ''me@home'', workEmail = ''me@work''\<rparr>"

definition test_created :: "new_block \<Rightarrow> event" where
  "test_created b =
     \<lparr>id' = ''blk-'' @ new_description b, status = Some ''confirmed'',
      summary = Some (new_summary b), description = Some (new_description b),
      start = new_start b, end' = new_end b, recurrence = new_recurrence b,
      attendees = Some (new_attendees b)\<rparr>"

definition test_stringify :: "(string \<times> string) list \<Rightarrow> string" where
  "test_stringify m = concat (map (\<lambda>(k, v). k @ ''='' @ v @ '';'') m)"

definition test_parse :: "string \<Rightarrow> (string \<times> string) list option" where
  "test_parse str =
     (if str = ''scheduler=tok1;'' then Some [(''scheduler'', ''tok1'')]
      else if str = ''scheduler=tok1;home=tok2;'' then Some [(''scheduler'', ''tok1''), (''home'', ''tok2'')]
      else None)"

definition test_Date_parse :: "string \<Rightarrow> int option" where
  "test_Date_parse str =
     (if str = ''2025-06-01T09:00:00Z'' then Some 1748768400000
      else if str = ''2025-06-03T09:00:00Z'' then Some 1748941200000
      else None)"

definition test_toISOString :: "int \<Rightarrow> string" where
  "test_toISOString t =
     (if t = 1738368000000 then ''2025-02-01T00:00:00.000Z''
      else if t = 1741003200000 then ''2025-03-03T12:00:00.000Z''
      else if t = 1748779200000 then ''2025-06-01T12:00:00.000Z''
      else ''other'')"

definition test_platform ::
  "(string \<Rightarrow> list_options \<Rightarrow> string + list_response) \<Rightarrow> bool \<Rightarrow> ((string \<times> string) list) platform" where
  "test_platform answer writable =
     \<lparr>Events_list = (\<lambda>cal opts w. (answer cal opts, w)),
      Events_insert = (\<lambda>b cal w. (if writable then Inr (test_created b) else Inl ''write refused'', w)),
      Events_update = (\<lambda>ev cal eid w. (if writable then Inr ev else Inl ''write refused'', w)),
      Events_remove = (\<lambda>cal eid w. (if writable then Inr () else Inl ''write refused'', w)),
      getScriptProperties = (\<lambda>w. test_props),
      getProperty = (\<lambda>k w. map_of w k),
      setProperty = (\<lambda>k v w. AList.update k v w),
      JSON_parse = test_parse,
      JSON_stringify = test_stringify,
      Date_now = (\<lambda>w. 1741003200000),
      Date_parse = test_Date_parse,
      Date_addDays = (\<lambda>n d. d + n * 86400000),
      Date_atHour = (\<lambda>h d. d - d mod 86400000 + h * 3600000),
      Date_toISOString = test_toISOString\<rparr>"

text \<open>Events and answers of the examples.\<close>

definition timed :: "string \<Rightarrow> date_val option" where
  "timed t = Some \<lparr>dateTime = Some t, date = None, timeZone = Some ''UTC''\<rparr>"

definition meeting :: "string \<Rightarrow> string option \<Rightarrow> event" where
  "meeting i st =
     \<lparr>id' = i, status = st, summary = Some ''meeting'', description = None,
      start = timed ''2025-06-01T09:00:00Z'', end' = timed ''2025-06-01T10:00:00Z'',
      recurrence = None, attendees = Some [''me@home'']\<rparr>"

definition block_of :: "event \<Rightarrow> event" where
  "block_of ev =
     \<lparr>id' = ''blk-'' @ id' ev, status = Some ''confirmed'', summary = Some block_summary,
      description = Some (id' ev), start = start ev, end' = end' ev,
      recurrence = recurrence ev, attendees = Some [''me@work'']\<rparr>"

definition page :: "event list \<Rightarrow> string + list_response" where
  "page evs = Inr \<lparr>items = Some evs, nextPageToken = None, nextSyncToken = None\<rparr>"

text \<open>Both source calendars deliver the event \<^verbatim>\<open>ev1\<close>; the blocker calendar shows nothing.\<close>

definition answer_shared :: "string \<Rightarrow> list_options \<Rightarrow> string + list_response" where
  "answer_shared cal opts =
     (if cal = ''blocker'' then page [] else page [meeting ''ev1'' (Some ''confirmed'')])"

text \<open>The blocker calendar shows the given blocks, whatever is searched for.\<close>

definition answer_blocks :: "event list \<Rightarrow> string \<Rightarrow> list_options \<Rightarrow> string + list_response" where
  "answer_blocks blocks cal opts = (if cal = ''blocker'' then page blocks else page [])"

text \<open>The scheduler calendar delivers \<^verbatim>\<open>ev1\<close>, the home calendar \<^verbatim>\<open>ev2\<close>.\<close>

definition answer_distinct :: "string \<Rightarrow> list_options \<Rightarrow> string + list_response" where
  "answer_distinct cal opts =
     (if cal = ''blocker'' then page []
      else if cal = ''scheduler'' then page [meeting ''ev1'' (Some ''confirmed'')]
      else page [meeting ''ev2'' (Some ''confirmed'')])"

text \<open>
  An incremental fetch gets a first page and a page token; the request for the second
  page fails with the given message. A request without a sync token gets one page and a
  new token.
\<close>

definition answer_paged :: "string \<Rightarrow> string \<Rightarrow> list_options \<Rightarrow> string + list_response" where
  "answer_paged message cal opts =
     (if syncToken opts = None then
        Inr \<lparr>items = Some [meeting ''ev1'' (Some ''confirmed'')], nextPageToken = None,
             nextSyncToken = Some ''tok2''\<rparr>
      else if pageToken opts = None then
        Inr \<lparr>items = Some [meeting ''ev0'' (Some ''confirmed'')], nextPageToken = Some ''p2'',
             nextSyncToken = None\<rparr>
      else Inl message)"

definition start_state :: "(string \<times> string) list \<Rightarrow> ((string \<times> string) list) state" where
  "start_state store = \<lparr>world = store, calls = []\<rparr>"

text \<open>Platforms of the examples: a blocker calendar with the given blocks.\<close>

definition platform_with :: "event list \<Rightarrow> bool \<Rightarrow> ((string \<times> string) list) platform" where
  "platform_with blocks writable = test_platform (answer_blocks blocks) writable"

text \<open>An instance of the series \<^verbatim>\<open>parent123\<close>, 89 days out, and one 91 days out.\<close>

definition instance_near :: event where
  "instance_near = meeting ''parent123_20250601T090000Z'' (Some ''confirmed'')"

definition instance_far :: event where
  "instance_far =
     (meeting ''parent123_20250603T090000Z'' (Some ''confirmed''))
       \<lparr>start := timed ''2025-06-03T09:00:00Z'', end' := timed ''2025-06-03T10:00:00Z''\<rparr>"

text \<open>
  The four stages of a reactive run on the platform where the scheduler calendar delivers
  \<^verbatim>\<open>ev1\<close> and the home calendar \<^verbatim>\<open>ev2\<close>: two fetches, then two reconciliation passes.
\<close>

definition distinct_platform :: "((string \<times> string) list) platform" where
  "distinct_platform = test_platform answer_distinct True"

definition stage1 :: "(exn + event list) option \<times> ((string \<times> string) list) state" where
  "stage1 = fetchEventsByToken 5 distinct_platform ''scheduler'' False (start_state [])"

definition stage2 :: "(exn + event list) option \<times> ((string \<times> string) list) state" where
  "stage2 = fetchEventsByToken 5 distinct_platform ''home'' False (snd stage1)"

definition stage3 :: "(exn + unit) \<times> tracker \<times> ((string \<times> string) list) state" where
  "stage3 = processCalendar distinct_platform ''scheduler'' ''blocker'' ''me@home'' ''me@work''
              True False Map.empty [meeting ''ev1'' (Some ''confirmed'')] (snd stage2)"

definition stage4 :: "(exn + unit) \<times> tracker \<times> ((string \<times> string) list) state" where
  "stage4 = processCalendar distinct_platform ''home'' ''blocker'' ''me@home'' ''me@work''
              False False (fst (snd stage3)) [meeting ''ev2'' (Some ''confirmed'')] (snd (snd stage3))"

text \<open>A later instance of the same series.\<close>

definition instance_next :: event where
  "instance_next =
     (meeting ''parent123_20250608T090000Z'' (Some ''confirmed''))
       \<lparr>start := timed ''2025-06-08T09:00:00Z'', end' := timed ''2025-06-08T10:00:00Z''\<rparr>"

text \<open>A cancelled instance as a change feed delivers it: without start and end.\<close>

definition cancelled_instance :: event where
  "cancelled_instance =
     (meeting ''parent123_20250601T090000Z'' (Some ''cancelled''))\<lparr>start := None, end' := None\<rparr>"

text \<open>
  Three events that each need a write: \<^verbatim>\<open>a\<close> has no block, \<^verbatim>\<open>b\<close> is cancelled and has
  one, \<^verbatim>\<open>c\<close> has a block that ends an hour late.
\<close>

definition failing_events :: "event list" where
  "failing_events =
     [meeting ''a'' (Some ''confirmed''), meeting ''b'' (Some ''cancelled''),
      meeting ''c'' (Some ''confirmed'')]"

definition failing_blocks :: "event list" where
  "failing_blocks =
     [block_of (meeting ''b'' (Some ''confirmed'')),
      (block_of (meeting ''c'' (Some ''confirmed'')))\<lparr>end' := timed ''2025-06-01T11:00:00Z''\<rparr>]"

section \<open>Properties of the helpers\<close>

lemma areRecurrencesEqual_iff: "areRecurrencesEqual r1 r2 = (r1 = r2)"
proof (cases r1; cases r2)
  fix a b assume r: "r1 = Some a" "r2 = Some b"
  have "(length a = length b \<and> (\<forall>i<length a. a ! i = b ! i)) = (a = b)"
    by (auto simp: list_eq_iff_nth_eq)
  then show ?thesis using r by (auto simp: list_all_iff)
qed simp_all

lemma areDatesEqual_refl: "areDatesEqual d d"
  by (cases d) simp_all

lemma triple_fst: "fst x = a \<Longrightarrow> x = (a, fst (snd x), snd (snd x))"
  by (cases x) auto

lemma calls_invoke: "invoke c f s = (r, s1) \<Longrightarrow> calls s1 = calls s @ [c]"
  by (auto simp: invoke_def split: prod.splits)

lemma calls_deleteEvent:
  "calls (deleteEvent P cal eid s) = calls s @ [EventsRemove cal eid]"
  by (auto simp: deleteEvent_def Calendar_Events_remove_def split: prod.splits sum.splits
      dest: calls_invoke)

lemma deleteEvent_eq:
  "deleteEvent P cal eid s =
     \<lparr>world = snd (Events_remove P cal eid (world s)), calls = calls s @ [EventsRemove cal eid]\<rparr>"
  by (auto simp: deleteEvent_def Calendar_Events_remove_def invoke_def split: prod.splits sum.splits)

lemma calls_updateEvent:
  "calls (updateEvent P cal eid ev s) = calls s @ [EventsUpdate ev cal eid]"
  by (auto simp: updateEvent_def Calendar_Events_update_def split: prod.splits sum.splits
      dest: calls_invoke)

lemma calls_createEvent:
  "createEvent P cal b s = (r, s1) \<Longrightarrow> calls s1 = calls s @ [EventsInsert b cal]"
  by (auto simp: createEvent_def Calendar_Events_insert_def split: prod.splits sum.splits
      dest: calls_invoke)

lemma calls_checkForBlockOnCalendar:
  "checkForBlockOnCalendar P cal i c s = (r, c1, s1) \<Longrightarrow>
   calls s1 = calls s @ (if c i = None then [EventsList cal (no_options\<lparr>q' := Some i\<rparr>)] else [])"
  by (auto simp: checkForBlockOnCalendar_def Calendar_Events_list_def
      split: prod.splits sum.splits option.splits if_splits dest: calls_invoke)

lemma new_calls_append: "calls s1 = calls s @ cs \<Longrightarrow> new_calls s s1 = cs"
  by (simp add: new_calls_def)

lemma lookup_no_write:
  "checkForBlockOnCalendar P cal i c s = (r, c1, s1) \<Longrightarrow> filter is_write (new_calls s s1) = []"
  by (drule calls_checkForBlockOnCalendar) (simp add: new_calls_def is_write_def)

lemma id_addAttendee: "addAttendee P src h a ev s = (ev1, s1) \<Longrightarrow> id' ev1 = id' ev"
  by (auto simp: addAttendee_def Let_def split: if_splits)

lemma calls_addAttendee:
  "addAttendee P src h a ev s = (ev1, s1) \<Longrightarrow>
   calls s1 = calls s \<or> calls s1 = calls s @ [EventsUpdate ev1 src (id' ev1)]"
  by (auto simp: addAttendee_def Let_def calls_updateEvent split: if_splits)

lemma checkForBlockOnCalendar_cached:
  "cache i = Some cached \<Longrightarrow> checkForBlockOnCalendar P cal i cache s = (Inr cached, cache, s)"
  by (simp add: checkForBlockOnCalendar_def)

lemma checkForBlockOnCalendar_searched:
  assumes "cache i = None"
    and "Events_list P cal (no_options\<lparr>q' := Some i\<rparr>) (world s) = (Inr blocks, w1)"
  shows "checkForBlockOnCalendar P cal i cache s =
           (Inr (matching_block blocks i), cache(i \<mapsto> matching_block blocks i),
            \<lparr>world = w1, calls = calls s @ [EventsList cal (no_options\<lparr>q' := Some i\<rparr>)]\<rparr>)"
proof -
  have l: "Calendar_Events_list P cal (no_options\<lparr>q' := Some i\<rparr>) s =
      (Inr blocks, \<lparr>world = w1, calls = calls s @ [EventsList cal (no_options\<lparr>q' := Some i\<rparr>)]\<rparr>)"
    using assms(2) by (simp add: Calendar_Events_list_def invoke_def)
  show ?thesis
  proof (cases "items blocks")
    case None
    with assms(1) l show ?thesis by (simp add: checkForBlockOnCalendar_def matching_block_def)
  next
    case (Some its)
    with assms(1) l show ?thesis
      by (cases its) (auto simp: checkForBlockOnCalendar_def matching_block_def split: option.splits)
  qed
qed

lemma calls_reconcile:
  assumes "reconcile P cal w ev c t s = (r, c1, t1, s1)"
  shows "\<exists>cs. calls s1 = calls s @ cs \<and>
           list_all (keyed_by src cal (id' ev) (found_block_id P cal (id' ev) c s)) cs"
proof (cases "checkForBlockOnCalendar P cal (id' ev) c s")
  case (fields r0 c0 s0)
  note k = calls_checkForBlockOnCalendar[OF fields]
  show ?thesis
  proof (cases r0)
    case (Inl e)
    with assms fields k show ?thesis
      by (auto simp: reconcile_def keyed_by_def)
  next
    case (Inr found)
    show ?thesis
    proof (cases found)
      case None
      with assms fields k Inr show ?thesis
        by (auto simp: reconcile_def keyed_by_def
            split: if_splits prod.splits option.splits dest!: calls_createEvent)
    next
      case (Some b)
      with assms fields k Inr show ?thesis
        by (auto simp: reconcile_def keyed_by_def found_block_id_def Let_def calls_deleteEvent calls_updateEvent
            split: if_splits)
    qed
  qed
qed

lemma calls_processOrdinary:
  assumes "processOrdinary P src cal h w a ev c t s = (r, c1, t1, s1)"
  shows "list_all (keyed_by src cal (id' ev)
            (found_block_id P cal (id' ev) c (snd (addAttendee P src h a ev s)))) (new_calls s s1)"
proof (cases "addAttendee P src h a ev s")
  case (Pair ev1 s0)
  from assms Pair have r: "reconcile P cal w ev1 c t s0 = (r, c1, t1, s1)"
    by (simp add: processOrdinary_def)
  note i = id_addAttendee[OF Pair]
  from calls_reconcile[OF r, of src] i obtain cs where cs: "calls s1 = calls s0 @ cs"
    "list_all (keyed_by src cal (id' ev) (found_block_id P cal (id' ev) c s0)) cs"
    by auto
  from calls_addAttendee[OF Pair] i cs Pair show ?thesis
    by (auto simp: keyed_by_def new_calls_def)
qed

lemma ordinary_event:
  "\<not> matches_instance_id (id' ev) \<Longrightarrow>
   processEvent P src cal h w a ev c t s = processOrdinary P src cal h w a ev c t s"
  by (simp add: processEvent_def resolveInstance_def)

lemma creates_for_append [simp]: "creates_for i (xs @ ys) = creates_for i xs + creates_for i ys"
  by (simp add: creates_for_def)

lemma creates_for_Nil [simp]: "creates_for i [] = 0"
  by (simp add: creates_for_def)

lemma creates_for_single:
  "creates_for i [c] = (if is_create_for i c then 1 else 0)"
  by (simp add: creates_for_def)

lemma reconcile_bound:
  assumes "reconcile P cal w ev c t s = (r, c1, t1, s1)"
    and "creates_for i (calls s) \<le> tracked t i"
  shows "creates_for i (calls s1) \<le> tracked t1 i"
proof (cases "checkForBlockOnCalendar P cal (id' ev) c s")
  case (fields r0 c0 s0)
  from calls_checkForBlockOnCalendar[OF fields]
  have k: "creates_for i (calls s0) = creates_for i (calls s)"
    by (simp add: creates_for_single is_create_for_def)
  show ?thesis
  proof (cases r0)
    case (Inl e)
    with assms fields k show ?thesis by (auto simp: reconcile_def)
  next
    case (Inr found)
    show ?thesis
    proof (cases found)
      case None
      with assms fields k Inr show ?thesis
        by (auto simp: reconcile_def tracked_def creates_for_single is_create_for_def
            split: if_splits prod.splits option.splits dest!: calls_createEvent)
    next
      case (Some b)
      with assms fields k Inr show ?thesis
        by (auto simp: reconcile_def Let_def calls_deleteEvent calls_updateEvent
            creates_for_single is_create_for_def split: if_splits)
    qed
  qed
qed

lemma processEvent_bound:
  assumes "processEvent P src cal h w a ev c t s = (r, c1, t1, s1)"
    and "creates_for i (calls s) \<le> tracked t i"
  shows "creates_for i (calls s1) \<le> tracked t1 i"
proof (cases "resolveInstance P cal ev c s")
  case (fields r0 c0 s0)
  have k: "creates_for i (calls s0) = creates_for i (calls s)"
    using fields
    by (auto simp: resolveInstance_def creates_for_single is_create_for_def
        split: if_splits prod.splits sum.splits option.splits
        dest!: calls_checkForBlockOnCalendar)
  show ?thesis
  proof (cases "r0 = Inr Proceed")
    case False
    with assms fields k show ?thesis
      by (auto simp: processEvent_def split: sum.splits resolution.splits)
  next
    case True
    obtain ev1 s2 where a: "addAttendee P src h a ev s0 = (ev1, s2)"
      by (cases "addAttendee P src h a ev s0")
    from calls_addAttendee[OF a] have k2: "creates_for i (calls s2) = creates_for i (calls s0)"
      by (auto simp: creates_for_single is_create_for_def)
    from True assms(1) fields a have "reconcile P cal w ev1 c0 t s2 = (r, c1, t1, s1)"
      by (simp add: processEvent_def processOrdinary_def)
    from reconcile_bound[OF this] k k2 assms(2) show ?thesis by simp
  qed
qed

lemma processEvents_bound:
  "processEvents P src cal h w a events c t s = (r, c1, t1, s1) \<Longrightarrow>
   creates_for i (calls s) \<le> tracked t i \<Longrightarrow> creates_for i (calls s1) \<le> tracked t1 i"
proof (induction events arbitrary: c t s)
  case Nil
  then show ?case by simp
next
  case (Cons ev events)
  obtain r0 c0 t0 s0 where e: "processEvent P src cal h w a ev c t s = (r0, c0, t0, s0)"
    by (cases "processEvent P src cal h w a ev c t s")
  note b = processEvent_bound[OF e Cons.prems(2)]
  show ?case
  proof (cases r0)
    case (Inl x)
    with Cons.prems(1) e b show ?thesis by simp
  next
    case (Inr u)
    with Cons.prems(1) e have "processEvents P src cal h w a events c0 t0 s0 = (r, c1, t1, s1)"
      by simp
    from Cons.IH[OF this b] show ?thesis .
  qed
qed

lemma processCalendar_bound:
  "processCalendar P src cal h w a d t events s = (r, t1, s1) \<Longrightarrow>
   creates_for i (calls s) \<le> tracked t i \<Longrightarrow> creates_for i (calls s1) \<le> tracked t1 i"
  by (auto simp: processCalendar_def split: if_splits prod.splits dest: processEvents_bound)

lemma processBoth_bound:
  assumes "processBoth P pr t ev1 ev2 s = (r, s1)" and "creates_for i (calls s) \<le> tracked t i"
  shows "creates_for i (calls s1) \<le> 1"
proof -
  obtain r0 t0 s0 where a: "processCalendar P (schedulerCal pr) (blockerCal pr) (homeEmail pr)
             (workEmail pr) True False t ev1 s = (r0, t0, s0)"
    using prod_cases3 by blast
  note b = processCalendar_bound[OF a assms(2)]
  have le: "\<And>t. tracked t i \<le> 1" by (simp add: tracked_def)
  show ?thesis
  proof (cases r0)
    case (Inl e)
    with assms(1) a b le[of t0] show ?thesis by (auto simp: processBoth_def)
  next
    case (Inr u)
    obtain r2 t2 s2 where c: "processCalendar P (homeCal pr) (blockerCal pr) (homeEmail pr)
             (workEmail pr) False False t0 ev2 s0 = (r2, t2, s2)"
      using prod_cases3 by blast
    from processCalendar_bound[OF c b] le[of t2] assms(1) a c Inr show ?thesis
      by (auto simp: processBoth_def)
  qed
qed

lemma reconcile_calls_reconcile:
  assumes "reconcile P cal w ev c t s = (r, c1, t1, s1)"
  shows "\<exists>cs. calls s1 = calls s @ cs \<and> list_all is_reconcile_call cs"
proof (cases "checkForBlockOnCalendar P cal (id' ev) c s")
  case (fields r0 c0 s0)
  note k = calls_checkForBlockOnCalendar[OF fields]
  show ?thesis
  proof (cases r0)
    case (Inl e)
    with assms fields k show ?thesis
      by (auto simp: reconcile_def is_reconcile_call_def no_options_def)
  next
    case (Inr found)
    show ?thesis
    proof (cases found)
      case None
      with assms fields k Inr show ?thesis
        by (auto simp: reconcile_def is_reconcile_call_def no_options_def
            split: if_splits prod.splits option.splits dest!: calls_createEvent)
    next
      case (Some b)
      with assms fields k Inr show ?thesis
        by (auto simp: reconcile_def is_reconcile_call_def no_options_def Let_def calls_deleteEvent calls_updateEvent
            split: if_splits)
    qed
  qed
qed

lemma resolveInstance_calls:
  assumes "resolveInstance P cal ev c s = (r, c1, s1)"
  shows "\<exists>cs. calls s1 = calls s @ cs \<and> list_all is_reconcile_call cs"
  using assms
  by (auto simp: resolveInstance_def is_reconcile_call_def no_options_def
      split: if_splits prod.splits sum.splits option.splits
      dest!: calls_checkForBlockOnCalendar)

lemma processEvent_calls:
  assumes "processEvent P src cal h w a ev c t s = (r, c1, t1, s1)"
  shows "\<exists>cs. calls s1 = calls s @ cs \<and> list_all is_reconcile_call cs"
proof (cases "resolveInstance P cal ev c s")
  case (fields r0 c0 s0)
  from resolveInstance_calls[OF fields] obtain cs0 where
    k: "calls s0 = calls s @ cs0" "list_all is_reconcile_call cs0" by blast
  show ?thesis
  proof (cases "r0 = Inr Proceed")
    case False
    with assms fields k show ?thesis
      by (auto simp: processEvent_def split: sum.splits resolution.splits)
  next
    case True
    obtain ev1 s2 where a: "addAttendee P src h a ev s0 = (ev1, s2)"
      by (cases "addAttendee P src h a ev s0")
    from calls_addAttendee[OF a] obtain cs1 where
      k1: "calls s2 = calls s0 @ cs1" "list_all is_reconcile_call cs1"
      by (auto simp: is_reconcile_call_def)
    from True assms(1) fields a have "reconcile P cal w ev1 c0 t s2 = (r, c1, t1, s1)"
      by (simp add: processEvent_def processOrdinary_def)
    from reconcile_calls_reconcile[OF this] obtain cs2 where
      k2: "calls s1 = calls s2 @ cs2" "list_all is_reconcile_call cs2" by blast
    from k k1 k2 have "calls s1 = calls s @ (cs0 @ cs1 @ cs2)" "list_all is_reconcile_call (cs0 @ cs1 @ cs2)"
      by simp_all
    then show ?thesis by blast
  qed
qed

lemma processEvents_calls:
  "processEvents P src cal h w a events c t s = (r, c1, t1, s1) \<Longrightarrow>
   \<exists>cs. calls s1 = calls s @ cs \<and> list_all is_reconcile_call cs"
proof (induction events arbitrary: c t s)
  case Nil
  then show ?case by simp
next
  case (Cons ev events)
  obtain r0 c0 t0 s0 where e: "processEvent P src cal h w a ev c t s = (r0, c0, t0, s0)"
    by (cases "processEvent P src cal h w a ev c t s")
  from processEvent_calls[OF e] obtain cs0 where
    k: "calls s0 = calls s @ cs0" "list_all is_reconcile_call cs0" by blast
  show ?case
  proof (cases r0)
    case (Inl x)
    with Cons.prems(1) e k show ?thesis by auto
  next
    case (Inr u)
    with Cons.prems(1) e have "processEvents P src cal h w a events c0 t0 s0 = (r, c1, t1, s1)"
      by simp
    from Cons.IH[OF this] obtain cs1 where
      k1: "calls s1 = calls s0 @ cs1" "list_all is_reconcile_call cs1" by blast
    from k k1 have "calls s1 = calls s @ (cs0 @ cs1)" "list_all is_reconcile_call (cs0 @ cs1)"
      by simp_all
    then show ?thesis by blast
  qed
qed

lemma processCalendar_calls:
  "processCalendar P src cal h w a d t events s = (r, t1, s1) \<Longrightarrow>
   \<exists>cs. calls s1 = calls s @ cs \<and> list_all is_reconcile_call cs"
  by (auto simp: processCalendar_def split: if_splits prod.splits dest: processEvents_calls)

lemma processBoth_calls:
  assumes "processBoth P pr t ev1 ev2 s = (r, s1)"
  shows "\<exists>cs. calls s1 = calls s @ cs \<and> list_all is_reconcile_call cs"
proof -
  obtain r0 t0 s0 where a: "processCalendar P (schedulerCal pr) (blockerCal pr) (homeEmail pr)
             (workEmail pr) True False t ev1 s = (r0, t0, s0)"
    using prod_cases3 by blast
  from processCalendar_calls[OF a] obtain cs0 where
    k: "calls s0 = calls s @ cs0" "list_all is_reconcile_call cs0" by blast
  show ?thesis
  proof (cases r0)
    case (Inl e)
    with assms(1) a k show ?thesis by (auto simp: processBoth_def)
  next
    case (Inr u)
    obtain r2 t2 s2 where c: "processCalendar P (homeCal pr) (blockerCal pr) (homeEmail pr)
             (workEmail pr) False False t0 ev2 s0 = (r2, t2, s2)"
      using prod_cases3 by blast
    from processCalendar_calls[OF c] obtain cs1 where
      k1: "calls s2 = calls s0 @ cs1" "list_all is_reconcile_call cs1" by blast
    from k k1 have "calls s2 = calls s @ (cs0 @ cs1)" "list_all is_reconcile_call (cs0 @ cs1)"
      by simp_all
    with assms(1) a c Inr show ?thesis by (auto simp: processBoth_def)
  qed
qed

lemma calls_list:
  "Calendar_Events_list P cal opts s = (r, s1) \<Longrightarrow>
   calls s1 = calls s @ [EventsList cal opts] \<and> Events_list P cal opts (world s) = (r, world s1)"
  by (auto simp: Calendar_Events_list_def invoke_def split: prod.splits)

lemma calls_store_syncToken:
  "\<exists>cs. calls (store_syncToken P cal toks events s) = calls s @ cs \<and>
        list_all (is_fetch_call cal) cs \<and> list_all is_later_page cs"
  by (auto simp: store_syncToken_def properties_setProperty_def is_fetch_call_def is_later_page_def
      split: option.splits)

lemma window_pages_calls:
  "q' options = None \<Longrightarrow>
   fetchEventsByTimeWindow_pages fuel P cal options pt evts s = (r, s1) \<Longrightarrow>
   \<exists>cs. calls s1 = calls s @ cs \<and> list_all (is_fetch_call cal) cs"
proof (induction fuel arbitrary: pt evts s)
  case 0
  then show ?case by simp
next
  case (Suc fuel)
  obtain r0 s0 where l: "Calendar_Events_list P cal (options\<lparr>pageToken := pt\<rparr>) s = (r0, s0)"
    by (cases "Calendar_Events_list P cal (options\<lparr>pageToken := pt\<rparr>) s")
  from calls_list[OF l] Suc.prems(1)
  have k: "calls s0 = calls s @ [EventsList cal (options\<lparr>pageToken := pt\<rparr>)]"
    "is_fetch_call cal (EventsList cal (options\<lparr>pageToken := pt\<rparr>))"
    by (simp_all add: is_fetch_call_def)
  show ?case
  proof (cases r0)
    case (Inl message)
    with Suc.prems l k show ?thesis by auto
  next
    case (Inr events)
    show ?thesis
    proof (cases "truthy (nextPageToken events)")
      case True
      with Suc.prems l Inr have "fetchEventsByTimeWindow_pages fuel P cal options (nextPageToken events)
              (concat_items evts events) s0 = (r, s1)" by simp
      from Suc.IH[OF Suc.prems(1) this] obtain cs where
        "calls s1 = calls s0 @ cs" "list_all (is_fetch_call cal) cs" by blast
      with k have "calls s1 = calls s @ (EventsList cal (options\<lparr>pageToken := pt\<rparr>) # cs)"
        "list_all (is_fetch_call cal) (EventsList cal (options\<lparr>pageToken := pt\<rparr>) # cs)"
        by simp_all
      then show ?thesis by blast
    next
      case False
      with Suc.prems l Inr k show ?thesis by auto
    qed
  qed
qed

lemma q_token_options: "q' (token_options P cal full toks w) = None"
  by (simp add: token_options_def no_options_def)

lemma token_pages_calls:
  "q' options = None \<Longrightarrow>
   fetchEventsByToken_pages fuel P cal toks options pt evts s = (r, s1) \<Longrightarrow>
   \<exists>cs. calls s1 = calls s @ cs \<and> list_all (is_fetch_call cal) cs"
proof (induction fuel arbitrary: toks options pt evts s)
  case 0
  then show ?case by simp
next
  case (Suc fuel)
  obtain r0 s0 where l: "Calendar_Events_list P cal (options\<lparr>pageToken := pt\<rparr>) s = (r0, s0)"
    by (cases "Calendar_Events_list P cal (options\<lparr>pageToken := pt\<rparr>) s")
  from calls_list[OF l] Suc.prems(1)
  have k: "calls s0 = calls s @ [EventsList cal (options\<lparr>pageToken := pt\<rparr>)]"
    "is_fetch_call cal (EventsList cal (options\<lparr>pageToken := pt\<rparr>))"
    by (simp_all add: is_fetch_call_def)
  show ?case
  proof (cases r0)
    case (Inl message)
    show ?thesis
    proof (cases "string_includes message ''Sync token is no longer valid''")
      case False
      with Suc.prems l k Inl show ?thesis by auto
    next
      case True
      define s2 where "s2 = properties_setProperty P ''syncTokens''
                 (JSON_stringify P (AList.delete cal toks)) s0"
      have k2: "calls s2 = calls s0 @ [SetProperty ''syncTokens'' (JSON_stringify P (AList.delete cal toks))]"
        by (simp add: s2_def properties_setProperty_def)
      from True Suc.prems(2) l Inl
      have "fetchEventsByToken_pages fuel P cal (read_syncTokens P (world s2))
              (token_options P cal True (read_syncTokens P (world s2)) (world s2)) None [] s2 = (r, s1)"
        by (simp add: s2_def)
      from Suc.IH[OF q_token_options this] obtain cs where
        "calls s1 = calls s2 @ cs" "list_all (is_fetch_call cal) cs" by blast
      with k k2 have "calls s1 = calls s @ (EventsList cal (options\<lparr>pageToken := pt\<rparr>) #
            SetProperty ''syncTokens'' (JSON_stringify P (AList.delete cal toks)) # cs)"
        "list_all (is_fetch_call cal) (EventsList cal (options\<lparr>pageToken := pt\<rparr>) #
            SetProperty ''syncTokens'' (JSON_stringify P (AList.delete cal toks)) # cs)"
        by (simp_all add: is_fetch_call_def)
      then show ?thesis by blast
    qed
  next
    case (Inr events)
    show ?thesis
    proof (cases "truthy (nextPageToken events)")
      case True
      with Suc.prems l Inr have "fetchEventsByToken_pages fuel P cal toks options (nextPageToken events)
              (concat_items evts events) s0 = (r, s1)" by simp
      from Suc.IH[OF Suc.prems(1) this] obtain cs where
        "calls s1 = calls s0 @ cs" "list_all (is_fetch_call cal) cs" by blast
      with k have "calls s1 = calls s @ (EventsList cal (options\<lparr>pageToken := pt\<rparr>) # cs)"
        "list_all (is_fetch_call cal) (EventsList cal (options\<lparr>pageToken := pt\<rparr>) # cs)"
        by simp_all
      then show ?thesis by blast
    next
      case False
      from calls_store_syncToken[of P cal toks events s0] obtain cs where
        "calls (store_syncToken P cal toks events s0) = calls s0 @ cs" "list_all (is_fetch_call cal) cs"
        by blast
      with k have "calls (store_syncToken P cal toks events s0) = calls s @ (EventsList cal (options\<lparr>pageToken := pt\<rparr>) # cs)"
        "list_all (is_fetch_call cal) (EventsList cal (options\<lparr>pageToken := pt\<rparr>) # cs)"
        by simp_all
      with False Suc.prems l Inr show ?thesis by auto
    qed
  qed
qed

lemma fetchEventsByToken_calls:
  "fetchEventsByToken fuel P cal full s = (r, s1) \<Longrightarrow>
   \<exists>cs. calls s1 = calls s @ cs \<and> list_all (is_fetch_call cal) cs"
  by (simp add: token_pages_calls[OF q_token_options])

lemma fetchEventsByTimeWindow_calls:
  "fetchEventsByTimeWindow fuel P cal a b s = (r, s1) \<Longrightarrow>
   \<exists>cs. calls s1 = calls s @ cs \<and> list_all (is_fetch_call cal) cs"
  unfolding fetchEventsByTimeWindow_def
  by (rule window_pages_calls) (simp_all add: no_options_def)

lemma fetch_no_create: "list_all (is_fetch_call cal) cs \<Longrightarrow> creates_for i cs = 0"
  by (induction cs) (auto simp: creates_for_def is_fetch_call_def is_create_for_def split: call.splits)

lemma run_bound:
  assumes f1: "\<And>r s1. fetch1 s = (r, s1) \<Longrightarrow> \<exists>cs. calls s1 = calls s @ cs \<and> list_all (is_fetch_call cal1) cs"
    and f2: "\<And>s0 r s1. fetch2 s0 = (r, s1) \<Longrightarrow> \<exists>cs. calls s1 = calls s0 @ cs \<and> list_all (is_fetch_call cal2) cs"
    and run: "run =
      (case fetch1 s of
        (None, s1) \<Rightarrow> (None, s1)
      | (Some (Inl e), s1) \<Rightarrow> (Some (Inl e), s1)
      | (Some (Inr schedulerEvents), s1) \<Rightarrow>
          (case fetch2 s1 of
             (None, s2) \<Rightarrow> (None, s2)
           | (Some (Inl e), s2) \<Rightarrow> (Some (Inl e), s2)
           | (Some (Inr homeEvents), s2) \<Rightarrow>
               (case processBoth P pr Map.empty schedulerEvents homeEvents s2 of
                  (r, s3) \<Rightarrow> (Some r, s3))))"
  shows "\<exists>F1 F2 R. calls (snd run) = calls s @ F1 @ F2 @ R \<and> list_all (is_fetch_call cal1) F1 \<and>
           list_all (is_fetch_call cal2) F2 \<and> list_all is_reconcile_call R \<and>
           (calls s = [] \<longrightarrow> creates_for i (calls (snd run)) \<le> 1)"
proof -
  obtain r1 s1 where a: "fetch1 s = (r1, s1)" by (cases "fetch1 s")
  from f1[OF a] obtain F1 where F1: "calls s1 = calls s @ F1" "list_all (is_fetch_call cal1) F1" by blast
  have stop1: ?thesis if "snd run = s1"
  proof -
    from that F1 have "calls (snd run) = calls s @ F1 @ [] @ []" by simp
    moreover have "calls s = [] \<longrightarrow> creates_for i (calls (snd run)) \<le> 1"
      using that F1 by (simp add: fetch_no_create)
    ultimately show ?thesis using F1(2)
      by (intro exI[of _ F1] exI[of _ "[]"]) simp
  qed
  show ?thesis
  proof (cases r1)
    case None
    with a run show ?thesis by (intro stop1) simp
  next
    case (Some x)
    show ?thesis
    proof (cases x)
      case (Inl e)
      with a run Some show ?thesis by (intro stop1) simp
    next
      case (Inr evs1)
      obtain r2 s2 where b: "fetch2 s1 = (r2, s2)" by (cases "fetch2 s1")
      from f2[OF b] obtain F2 where F2: "calls s2 = calls s1 @ F2" "list_all (is_fetch_call cal2) F2" by blast
      have stop2: ?thesis if "snd run = s2"
      proof -
        from that F1 F2 have "calls (snd run) = calls s @ F1 @ F2 @ []" by simp
        moreover have "calls s = [] \<longrightarrow> creates_for i (calls (snd run)) \<le> 1"
          using that F1 F2 by (simp add: fetch_no_create)
        ultimately show ?thesis using F1(2) F2(2)
          by (intro exI[of _ F1] exI[of _ F2] exI[of _ "[]"]) simp
      qed
      show ?thesis
      proof (cases r2)
        case None
        with a b run Some Inr show ?thesis by (intro stop2) simp
      next
        case (Some y)
        note Some2 = this
        show ?thesis
        proof (cases y)
          case (Inl e)
          with a b run \<open>r1 = Some x\<close> Inr Some2 show ?thesis by (intro stop2) simp
        next
          case (Inr evs2)
          note Inr2 = this
          obtain r3 s3 where c: "processBoth P pr Map.empty evs1 evs2 s2 = (r3, s3)"
            by (cases "processBoth P pr Map.empty evs1 evs2 s2")
          from processBoth_calls[OF c] obtain R where
            R: "calls s3 = calls s2 @ R" "list_all is_reconcile_call R" by blast
          from a b c run \<open>r1 = Some x\<close> \<open>x = Inr evs1\<close> Some2 Inr2 have fin: "snd run = s3" by simp
          have "calls s = [] \<longrightarrow> creates_for i (calls s3) \<le> 1"
          proof
            assume "calls s = []"
            with F1 F2 have "creates_for i (calls s2) \<le> tracked Map.empty i"
              by (simp add: fetch_no_create)
            from processBoth_bound[OF c this] show "creates_for i (calls s3) \<le> 1" .
          qed
          with fin F1 F2 R show ?thesis by auto
        qed
      qed
    qed
  qed
qed

lemma full_pages:
  assumes contract: "\<And>cal opts w message w1. Events_list P cal opts w = (Inl message, w1) \<Longrightarrow>
        string_includes message ''Sync token is no longer valid'' \<Longrightarrow> syncToken opts \<noteq> None"
    and full: "syncToken options = None"
  shows "fetchEventsByToken_pages fuel P cal toks options pt evts s = (r, s1) \<Longrightarrow>
     \<exists>cs. calls s1 = calls s @ cs \<and> list_all is_later_page (tl cs) \<and> (fuel = 0 \<longrightarrow> cs = []) \<and>
          (0 < fuel \<longrightarrow> cs \<noteq> [] \<and> hd cs = EventsList cal (options\<lparr>pageToken := pt\<rparr>))"
proof (induction fuel arbitrary: pt evts s)
  case 0
  then show ?case by simp
next
  case (Suc fuel)
  obtain r0 s0 where l: "Calendar_Events_list P cal (options\<lparr>pageToken := pt\<rparr>) s = (r0, s0)"
    by (cases "Calendar_Events_list P cal (options\<lparr>pageToken := pt\<rparr>) s")
  note k = calls_list[OF l]
  show ?case
  proof (cases r0)
    case (Inl message)
    with contract[of cal "options\<lparr>pageToken := pt\<rparr>" "world s" message "world s0"] k full
    have "\<not> string_includes message ''Sync token is no longer valid''" by auto
    with Suc.prems l k Inl show ?thesis by auto
  next
    case (Inr events)
    show ?thesis
    proof (cases "truthy (nextPageToken events)")
      case True
      with Suc.prems l Inr have "fetchEventsByToken_pages fuel P cal toks options (nextPageToken events)
              (concat_items evts events) s0 = (r, s1)" by simp
      from Suc.IH[OF this] obtain cs where cs:
        "calls s1 = calls s0 @ cs" "list_all is_later_page (tl cs)" "fuel = 0 \<longrightarrow> cs = []"
        "0 < fuel \<longrightarrow> cs \<noteq> [] \<and> hd cs = EventsList cal (options\<lparr>pageToken := nextPageToken events\<rparr>)"
        by blast
      have "list_all is_later_page cs"
      proof (cases cs)
        case Nil
        then show ?thesis by simp
      next
        case (Cons c cs')
        with cs True show ?thesis by (cases fuel) (auto simp: is_later_page_def)
      qed
      with k cs(1) show ?thesis
        by (intro exI[of _ "EventsList cal (options\<lparr>pageToken := pt\<rparr>) # cs"]) simp
    next
      case False
      from calls_store_syncToken[of P cal toks events s0] obtain cs where
        "calls (store_syncToken P cal toks events s0) = calls s0 @ cs" "list_all is_later_page cs"
        by blast
      with False Suc.prems l Inr k show ?thesis
        by (intro exI[of _ "EventsList cal (options\<lparr>pageToken := pt\<rparr>) # cs"]) auto
    qed
  qed
qed

lemma fetchEventsByToken_unfold:
  "fetchEventsByToken fuel P cal full s =
     fetchEventsByToken_pages fuel P cal (read_syncTokens P (world s))
       (token_options P cal full (read_syncTokens P (world s)) (world s)) None [] s"
  by simp

lemma pages_fail:
  "Calendar_Events_list P cal (options\<lparr>pageToken := pt\<rparr>) s = (Inl message, s0) \<Longrightarrow>
   fetchEventsByToken_pages (Suc fuel) P cal toks options pt evts s =
     (if string_includes message ''Sync token is no longer valid''
      then fetchEventsByToken fuel P cal True
             (properties_setProperty P ''syncTokens'' (JSON_stringify P (AList.delete cal toks)) s0)
      else (Some (Inl (Exception message)), s0))"
  by simp

lemma check_ok:
  assumes "\<And>cal opts w. \<not> isl (fst (Events_list P cal opts w))"
    and "checkForBlockOnCalendar P cal i c s = (r, c1, s1)"
  shows "\<not> isl r \<and> c1 i \<noteq> None \<and> (\<forall>k. c k \<noteq> None \<longrightarrow> c1 k \<noteq> None)"
proof (cases "c i")
  case (Some x)
  with assms(2) show ?thesis by (auto simp: checkForBlockOnCalendar_def)
next
  case None
  obtain r0 s0 where l: "Calendar_Events_list P cal (no_options\<lparr>q' := Some i\<rparr>) s = (r0, s0)"
    by (cases "Calendar_Events_list P cal (no_options\<lparr>q' := Some i\<rparr>) s")
  from calls_list[OF l] assms(1)[of cal "no_options\<lparr>q' := Some i\<rparr>" "world s"]
  obtain blocks where "r0 = Inr blocks" by (cases r0) auto
  with assms(2) None l show ?thesis
    by (auto simp: checkForBlockOnCalendar_def split: option.splits if_splits)
qed

lemma reconcile_ok:
  assumes ok: "\<And>cal opts w. \<not> isl (fst (Events_list P cal opts w))"
    and "reconcile P cal w ev c t s = (r, c1, t1, s1)"
  shows "r = Inr () \<and> c1 (id' ev) \<noteq> None \<and> (\<forall>k. c k \<noteq> None \<longrightarrow> c1 k \<noteq> None)"
proof (cases "checkForBlockOnCalendar P cal (id' ev) c s")
  case (fields r0 c0 s0)
  from check_ok[OF ok fields] obtain found where
    k: "r0 = Inr found" "c0 (id' ev) \<noteq> None" "\<forall>k. c k \<noteq> None \<longrightarrow> c0 k \<noteq> None"
    by (cases r0) auto
  show ?thesis
  proof (cases found)
    case None
    with assms(2) fields k show ?thesis
      by (auto simp: reconcile_def split: if_splits prod.splits option.splits)
  next
    case (Some b)
    with assms(2) fields k show ?thesis
      by (auto simp: reconcile_def Let_def split: if_splits)
  qed
qed

lemma processEvent_ok:
  assumes ok: "\<And>cal opts w. \<not> isl (fst (Events_list P cal opts w))"
    and st: "matches_instance_id (id' ev) \<Longrightarrow> start ev \<noteq> None"
    and run: "processEvent P src cal h w a ev c t s = (r, c1, t1, s1)"
  shows "r = Inr () \<and> c1 (first_lookup ev) \<noteq> None \<and> (\<forall>k. c k \<noteq> None \<longrightarrow> c1 k \<noteq> None)"
proof (cases "matches_instance_id (id' ev)")
  case False
  obtain ev1 s2 where a: "addAttendee P src h a ev s = (ev1, s2)"
    by (cases "addAttendee P src h a ev s")
  from False run a have "reconcile P cal w ev1 c t s2 = (r, c1, t1, s1)"
    by (simp add: processEvent_def resolveInstance_def processOrdinary_def)
  from reconcile_ok[OF ok this] id_addAttendee[OF a] False show ?thesis
    by (simp add: first_lookup_def)
next
  case True
  obtain r0 c0 s0 where p: "checkForBlockOnCalendar P cal (strip_timestamp (id' ev)) c s = (r0, c0, s0)"
    using prod_cases3 by blast
  from check_ok[OF ok p] obtain parent where
    k: "r0 = Inr parent" "c0 (strip_timestamp (id' ev)) \<noteq> None" "\<forall>k. c k \<noteq> None \<longrightarrow> c0 k \<noteq> None"
    by (cases r0) auto
  from st[OF True] obtain sv where sv: "start ev = Some sv" by auto
  show ?thesis
  proof (cases "resolveInstance P cal ev c s = (Inr Proceed, c0, s0)")
    case False
    with True p k sv have "resolveInstance P cal ev c s = (Inr Skip, c0, s0)"
      by (auto simp: resolveInstance_def split: option.splits if_splits)
    with run k True show ?thesis by (auto simp: processEvent_def first_lookup_def)
  next
    case res: True
    obtain ev1 s2 where a: "addAttendee P src h a ev s0 = (ev1, s2)"
      by (cases "addAttendee P src h a ev s0")
    from res run a have "reconcile P cal w ev1 c0 t s2 = (r, c1, t1, s1)"
      by (simp add: processEvent_def processOrdinary_def)
    from reconcile_ok[OF ok this] k True show ?thesis
      by (simp add: first_lookup_def)
  qed
qed


lemma token_pages_first:
  "fetchEventsByToken_pages fuel P cal toks options pt evts s = (r, s1) \<Longrightarrow>
   \<exists>cs. calls s1 = calls s @ cs \<and>
        (0 < fuel \<longrightarrow> cs \<noteq> [] \<and> hd cs = EventsList cal (options\<lparr>pageToken := pt\<rparr>))"
proof (induction fuel arbitrary: toks options pt evts s)
  case 0
  then show ?case by simp
next
  case (Suc fuel)
  obtain r0 s0 where l: "Calendar_Events_list P cal (options\<lparr>pageToken := pt\<rparr>) s = (r0, s0)"
    by (cases "Calendar_Events_list P cal (options\<lparr>pageToken := pt\<rparr>) s")
  from calls_list[OF l]
  have k: "calls s0 = calls s @ [EventsList cal (options\<lparr>pageToken := pt\<rparr>)]" by simp
  have step: "\<exists>cs. calls s1 = calls s0 @ cs"
  proof (cases r0)
    case (Inl message)
    show ?thesis
    proof (cases "string_includes message ''Sync token is no longer valid''")
      case False
      with Suc.prems l Inl show ?thesis by auto
    next
      case True
      define s2 where "s2 = properties_setProperty P ''syncTokens''
                 (JSON_stringify P (AList.delete cal toks)) s0"
      have k2: "calls s2 = calls s0 @ [SetProperty ''syncTokens'' (JSON_stringify P (AList.delete cal toks))]"
        by (simp add: s2_def properties_setProperty_def)
      from True Suc.prems l Inl
      have "fetchEventsByToken_pages fuel P cal (read_syncTokens P (world s2))
              (token_options P cal True (read_syncTokens P (world s2)) (world s2)) None [] s2 = (r, s1)"
        by (simp add: s2_def)
      from Suc.IH[OF this] k2 show ?thesis by auto
    qed
  next
    case (Inr events)
    show ?thesis
    proof (cases "truthy (nextPageToken events)")
      case True
      with Suc.prems l Inr have "fetchEventsByToken_pages fuel P cal toks options (nextPageToken events)
              (concat_items evts events) s0 = (r, s1)" by simp
      from Suc.IH[OF this] show ?thesis by auto
    next
      case False
      from calls_store_syncToken[of P cal toks events s0] False Suc.prems l Inr show ?thesis by auto
    qed
  qed
  with k show ?case by auto
qed

lemma pair_fst: "fst x = a \<Longrightarrow> x = (a, snd x)"
  by (cases x) auto

lemma stages_log:
  assumes f1: "\<exists>cs. calls s1 = calls s @ cs \<and> list_all (is_fetch_call c1) cs"
    and f2: "\<exists>cs. calls s2 = calls s1 @ cs \<and> list_all (is_fetch_call c2) cs"
    and pc1: "processCalendar P a1 b1 h1 w1 x1 d1 t1 evs1 s2 = (r3, t3, s3)"
    and pc2: "processCalendar P a2 b2 h2 w2 x2 d2 t3 evs2 s3 = (r4, t4, s4)"
  shows "\<exists>F1 F2 R1 R2. calls s1 = calls s @ F1 \<and> calls s2 = calls s1 @ F2 \<and>
           calls s3 = calls s2 @ R1 \<and> calls s4 = calls s3 @ R2 \<and>
           list_all (is_fetch_call c1) F1 \<and> list_all (is_fetch_call c2) F2 \<and>
           list_all is_reconcile_call R1 \<and> list_all is_reconcile_call R2"
  using f1 f2 processCalendar_calls[OF pc1] processCalendar_calls[OF pc2] by blast

lemma reactive_run_shape:
  "\<exists>F1 F2 R. calls (snd (reactiveEntryPoint fuel P s)) = calls s @ F1 @ F2 @ R \<and>
      list_all (is_fetch_call (schedulerCal (getScriptProperties P (world s)))) F1 \<and>
      list_all (is_fetch_call (homeCal (getScriptProperties P (world s)))) F2 \<and>
      list_all is_reconcile_call R \<and>
      (calls s = [] \<longrightarrow> creates_for i (calls (snd (reactiveEntryPoint fuel P s))) \<le> 1)"
  by (rule run_bound[where ?fetch1.0 = "fetchEventsByToken fuel P (schedulerCal (getScriptProperties P (world s))) False"
        and ?fetch2.0 = "fetchEventsByToken fuel P (homeCal (getScriptProperties P (world s))) False"
        and pr = "getScriptProperties P (world s)" and P = P])
    (simp_all add: fetchEventsByToken_calls reactiveEntryPoint_def Let_def del: fetchEventsByToken.simps)

lemma proactive_run_shape:
  "\<exists>F1 F2 R. calls (snd (proactiveEntryPoint fuel P s)) = calls s @ F1 @ F2 @ R \<and>
      list_all (is_fetch_call (schedulerCal (getScriptProperties P (world s)))) F1 \<and>
      list_all (is_fetch_call (homeCal (getScriptProperties P (world s)))) F2 \<and>
      list_all is_reconcile_call R \<and>
      (calls s = [] \<longrightarrow> creates_for i (calls (snd (proactiveEntryPoint fuel P s))) \<le> 1)"
  by (rule run_bound[where ?fetch1.0 = "fetchEventsByTimeWindow fuel P (schedulerCal (getScriptProperties P (world s)))
            (Date_now P (world s)) (Date_addDays P 90 (Date_now P (world s)))"
        and ?fetch2.0 = "fetchEventsByTimeWindow fuel P (homeCal (getScriptProperties P (world s)))
            (Date_now P (world s)) (Date_addDays P 90 (Date_now P (world s)))"
        and pr = "getScriptProperties P (world s)" and P = P])
    (simp_all add: fetchEventsByTimeWindow_calls proactiveEntryPoint_def Let_def)

section \<open>The claims\<close>

subsection \<open>C1\<close>

text \<open>
  C1. In every run, for every source-event id, at most one create operation is issued,
  also when both source calendars deliver the id: \<^verbatim>\<open>reconcile\<close> creates a block only for
  an id the tracker does not hold, and enters the id before the insert (the lemma
  \<open>reconcile_bound\<close>: the creates for an id never exceed what the tracker accounts for).
  Stated for both entry points, for every platform and every amount of fuel, on the log
  of a run that starts with an empty log.
\<close>

theorem at_most_one_create:
  "creates_for i (calls (snd (reactiveEntryPoint fuel P \<lparr>world = w0, calls = []\<rparr>))) \<le> 1 \<and>
   creates_for i (calls (snd (proactiveEntryPoint fuel P \<lparr>world = w0, calls = []\<rparr>))) \<le> 1"
  using reactive_run_shape[of fuel P "\<lparr>world = w0, calls = []\<rparr>" i]
    proactive_run_shape[of fuel P "\<lparr>world = w0, calls = []\<rparr>" i]
  by auto

text \<open>
  Both calendars deliver \<^verbatim>\<open>ev1\<close> and the blocker calendar never shows the new block:
  exactly one create is issued, in the reactive and in the proactive run.
\<close>

theorem at_most_one_create_witness:
  "creates_for ''ev1''
     (calls (snd (reactiveEntryPoint 5 (test_platform answer_shared True) \<lparr>world = [], calls = []\<rparr>))) = 1 \<and>
   creates_for ''ev1''
     (calls (snd (proactiveEntryPoint 5 (test_platform answer_shared True) \<lparr>world = [], calls = []\<rparr>))) = 1"
proof -
  have "1 \<le> creates_for ''ev1''
     (calls (snd (reactiveEntryPoint 5 (test_platform answer_shared True) \<lparr>world = [], calls = []\<rparr>)))"
    by code_simp
  moreover have "1 \<le> creates_for ''ev1''
     (calls (snd (proactiveEntryPoint 5 (test_platform answer_shared True) \<lparr>world = [], calls = []\<rparr>)))"
    by code_simp
  ultimately show ?thesis
    using at_most_one_create[of "''ev1''" 5 "test_platform answer_shared True" "[]"] by simp
qed

subsection \<open>C2\<close>

text \<open>
  C2. The claim: each source calendar is fully drained, its delta fetched and every
  fetched event reconciled, before the fetch of the next source begins. Both entry points
  fetch the scheduler calendar, then the home calendar, and only then reconcile. With
  \<^verbatim>\<open>ev1\<close> on the scheduler calendar and \<^verbatim>\<open>ev2\<close> on the home calendar, the home calendar
  is fetched (second call) before \<^verbatim>\<open>ev1\<close> is looked up and its block created.
\<close>

theorem home_fetched_before_scheduler_reconciled:
  "calls (snd (reactiveEntryPoint 5 (test_platform answer_distinct True) (start_state []))) =
     [EventsList ''scheduler'' \<lparr>q' = None, syncToken = None, timeMin = Some ''2025-02-01T00:00:00.000Z'',
         timeMax = None, maxResults = Some 100, pageToken = None\<rparr>,
      EventsList ''home'' \<lparr>q' = None, syncToken = None, timeMin = Some ''2025-02-01T00:00:00.000Z'',
         timeMax = None, maxResults = Some 100, pageToken = None\<rparr>,
      EventsList ''blocker'' \<lparr>q' = Some ''ev1'', syncToken = None, timeMin = None,
         timeMax = None, maxResults = None, pageToken = None\<rparr>,
      EventsInsert \<lparr>new_summary = block_summary, new_description = ''ev1'',
         new_start = timed ''2025-06-01T09:00:00Z'', new_end = timed ''2025-06-01T10:00:00Z'',
         new_attendees = [''me@work''], new_recurrence = None\<rparr> ''blocker'',
      EventsList ''blocker'' \<lparr>q' = Some ''ev2'', syncToken = None, timeMin = None,
         timeMax = None, maxResults = None, pageToken = None\<rparr>,
      EventsInsert \<lparr>new_summary = block_summary, new_description = ''ev2'',
         new_start = timed ''2025-06-01T09:00:00Z'', new_end = timed ''2025-06-01T10:00:00Z'',
         new_attendees = [''me@work''], new_recurrence = None\<rparr> ''blocker'']"
  by code_simp

text \<open>
  C2, amended. In every run the orchestrator fetches the delta of the scheduler calendar,
  then the delta of the home calendar, and only then reconciles, strictly in sequence:
  \<^verbatim>\<open>processCalendar\<close> over the list the scheduler fetch returned, started in the state the
  second fetch left and with an empty tracker, and, unless that pass threw, \<^verbatim>\<open>processCalendar\<close>
  over the list the home fetch returned, started in the state and with the tracker the
  first pass left. The run's result and final state are those of the last pass run. The
  log grows by fetch calls for the scheduler calendar, then fetch calls for the home
  calendar, then the calls of the first pass, then those of the second; a pass issues no
  fetch request. The last two parts hold of every run, also one cut short by an exception
  or by the fuel. Stated for both entry points.
\<close>

theorem fetches_precede_reconciliation:
  assumes pr: "pr = getScriptProperties P (world s)"
    and pc1: "processCalendar P (schedulerCal pr) (blockerCal pr) (homeEmail pr) (workEmail pr)
                True False Map.empty schedulerEvents s2 = (r3, tracker3, s3)"
    and pc2: "processCalendar P (homeCal pr) (blockerCal pr) (homeEmail pr) (workEmail pr)
                False False tracker3 homeEvents s3 = (r4, tracker4, s4)"
  shows "(fetchEventsByToken fuel P (schedulerCal pr) False s = (Some (Inr schedulerEvents), s1) \<longrightarrow>
          fetchEventsByToken fuel P (homeCal pr) False s1 = (Some (Inr homeEvents), s2) \<longrightarrow>
            reactiveEntryPoint fuel P s = (if r3 = Inr () then (Some r4, s4) else (Some r3, s3)) \<and>
            (\<exists>F1 F2 R1 R2. calls s1 = calls s @ F1 \<and> calls s2 = calls s1 @ F2 \<and>
               calls s3 = calls s2 @ R1 \<and> calls s4 = calls s3 @ R2 \<and>
               list_all (is_fetch_call (schedulerCal pr)) F1 \<and> list_all (is_fetch_call (homeCal pr)) F2 \<and>
               list_all is_reconcile_call R1 \<and> list_all is_reconcile_call R2)) \<and>
         (fetchEventsByTimeWindow fuel P (schedulerCal pr) (Date_now P (world s))
              (Date_addDays P 90 (Date_now P (world s))) s = (Some (Inr schedulerEvents), s1) \<longrightarrow>
          fetchEventsByTimeWindow fuel P (homeCal pr) (Date_now P (world s))
              (Date_addDays P 90 (Date_now P (world s))) s1 = (Some (Inr homeEvents), s2) \<longrightarrow>
            proactiveEntryPoint fuel P s = (if r3 = Inr () then (Some r4, s4) else (Some r3, s3)) \<and>
            (\<exists>F1 F2 R1 R2. calls s1 = calls s @ F1 \<and> calls s2 = calls s1 @ F2 \<and>
               calls s3 = calls s2 @ R1 \<and> calls s4 = calls s3 @ R2 \<and>
               list_all (is_fetch_call (schedulerCal pr)) F1 \<and> list_all (is_fetch_call (homeCal pr)) F2 \<and>
               list_all is_reconcile_call R1 \<and> list_all is_reconcile_call R2)) \<and>
         (\<exists>F1 F2 R. calls (snd (reactiveEntryPoint fuel P s)) = calls s @ F1 @ F2 @ R \<and>
            list_all (is_fetch_call (schedulerCal pr)) F1 \<and> list_all (is_fetch_call (homeCal pr)) F2 \<and>
            list_all is_reconcile_call R) \<and>
         (\<exists>F1 F2 R. calls (snd (proactiveEntryPoint fuel P s)) = calls s @ F1 @ F2 @ R \<and>
            list_all (is_fetch_call (schedulerCal pr)) F1 \<and> list_all (is_fetch_call (homeCal pr)) F2 \<and>
            list_all is_reconcile_call R)"
proof (intro conjI impI)
  assume f: "fetchEventsByToken fuel P (schedulerCal pr) False s = (Some (Inr schedulerEvents), s1)"
    "fetchEventsByToken fuel P (homeCal pr) False s1 = (Some (Inr homeEvents), s2)"
  have both: "processBoth P pr Map.empty schedulerEvents homeEvents s2 =
      (if r3 = Inr () then (r4, s4) else (r3, s3))"
    using pc1 pc2 by (cases r3) (auto simp: processBoth_def)
  from f both show "reactiveEntryPoint fuel P s = (if r3 = Inr () then (Some r4, s4) else (Some r3, s3))"
    by (simp add: reactiveEntryPoint_def Let_def pr[symmetric] del: fetchEventsByToken.simps)
  show "\<exists>F1 F2 R1 R2. calls s1 = calls s @ F1 \<and> calls s2 = calls s1 @ F2 \<and>
               calls s3 = calls s2 @ R1 \<and> calls s4 = calls s3 @ R2 \<and>
               list_all (is_fetch_call (schedulerCal pr)) F1 \<and> list_all (is_fetch_call (homeCal pr)) F2 \<and>
               list_all is_reconcile_call R1 \<and> list_all is_reconcile_call R2"
    by (rule stages_log[OF fetchEventsByToken_calls[OF f(1)] fetchEventsByToken_calls[OF f(2)] pc1 pc2])
next
  assume f: "fetchEventsByTimeWindow fuel P (schedulerCal pr) (Date_now P (world s))
              (Date_addDays P 90 (Date_now P (world s))) s = (Some (Inr schedulerEvents), s1)"
    "fetchEventsByTimeWindow fuel P (homeCal pr) (Date_now P (world s))
              (Date_addDays P 90 (Date_now P (world s))) s1 = (Some (Inr homeEvents), s2)"
  have both: "processBoth P pr Map.empty schedulerEvents homeEvents s2 =
      (if r3 = Inr () then (r4, s4) else (r3, s3))"
    using pc1 pc2 by (cases r3) (auto simp: processBoth_def)
  from f both show "proactiveEntryPoint fuel P s = (if r3 = Inr () then (Some r4, s4) else (Some r3, s3))"
    by (simp add: proactiveEntryPoint_def Let_def pr[symmetric])
  show "\<exists>F1 F2 R1 R2. calls s1 = calls s @ F1 \<and> calls s2 = calls s1 @ F2 \<and>
               calls s3 = calls s2 @ R1 \<and> calls s4 = calls s3 @ R2 \<and>
               list_all (is_fetch_call (schedulerCal pr)) F1 \<and> list_all (is_fetch_call (homeCal pr)) F2 \<and>
               list_all is_reconcile_call R1 \<and> list_all is_reconcile_call R2"
    by (rule stages_log[OF fetchEventsByTimeWindow_calls[OF f(1)] fetchEventsByTimeWindow_calls[OF f(2)] pc1 pc2])
next
  show "\<exists>F1 F2 R. calls (snd (reactiveEntryPoint fuel P s)) = calls s @ F1 @ F2 @ R \<and>
            list_all (is_fetch_call (schedulerCal pr)) F1 \<and> list_all (is_fetch_call (homeCal pr)) F2 \<and>
            list_all is_reconcile_call R"
    using reactive_run_shape[of fuel P s "[]"] unfolding pr by blast
next
  show "\<exists>F1 F2 R. calls (snd (proactiveEntryPoint fuel P s)) = calls s @ F1 @ F2 @ R \<and>
            list_all (is_fetch_call (schedulerCal pr)) F1 \<and> list_all (is_fetch_call (homeCal pr)) F2 \<and>
            list_all is_reconcile_call R"
    using proactive_run_shape[of fuel P s "[]"] unfolding pr by blast
qed

text \<open>
  On the platform of the counterexample each stage returns, and the run is the four
  stages in that order: one call, one call, two calls for \<^verbatim>\<open>ev1\<close>, two calls for \<^verbatim>\<open>ev2\<close>.
\<close>

theorem fetches_precede_reconciliation_witness:
  "fst stage1 = Some (Inr [meeting ''ev1'' (Some ''confirmed'')]) \<and>
   fst stage2 = Some (Inr [meeting ''ev2'' (Some ''confirmed'')]) \<and>
   fst stage3 = Inr () \<and>
   reactiveEntryPoint 5 distinct_platform (start_state []) = (Some (fst stage4), snd (snd stage4)) \<and>
   length (calls (snd stage1)) = 1 \<and> length (calls (snd stage2)) = 2 \<and>
   length (calls (snd (snd stage3))) = 4 \<and> length (calls (snd (snd stage4))) = 6"
proof -
  have pr: "test_props = getScriptProperties distinct_platform (world (start_state []))"
    by (simp add: distinct_platform_def test_platform_def)
  have tp: "schedulerCal test_props = ''scheduler''" "homeCal test_props = ''home''"
    "blockerCal test_props = ''blocker''" "homeEmail test_props = ''me@home''"
    "workEmail test_props = ''me@work''"
    by (simp_all add: test_props_def)
  have a: "fst stage1 = Some (Inr [meeting ''ev1'' (Some ''confirmed'')])" by code_simp
  have b: "fst stage2 = Some (Inr [meeting ''ev2'' (Some ''confirmed'')])" by code_simp
  have c: "fst stage3 = Inr ()" by code_simp
  have n: "length (calls (snd stage1)) = 1" "length (calls (snd stage2)) = 2"
    "length (calls (snd (snd stage3))) = 4" "length (calls (snd (snd stage4))) = 6"
    by code_simp+
  have f1: "fetchEventsByToken 5 distinct_platform (schedulerCal test_props) False (start_state []) =
      (Some (Inr [meeting ''ev1'' (Some ''confirmed'')]), snd stage1)"
    using pair_fst[OF a] by (simp only: tp stage1_def)
  have f2: "fetchEventsByToken 5 distinct_platform (homeCal test_props) False (snd stage1) =
      (Some (Inr [meeting ''ev2'' (Some ''confirmed'')]), snd stage2)"
    using pair_fst[OF b] by (simp only: tp stage2_def)
  have p1: "processCalendar distinct_platform (schedulerCal test_props) (blockerCal test_props)
      (homeEmail test_props) (workEmail test_props) True False Map.empty
      [meeting ''ev1'' (Some ''confirmed'')] (snd stage2) = (fst stage3, fst (snd stage3), snd (snd stage3))"
    by (simp only: tp stage3_def[symmetric] prod.collapse)
  have p2: "processCalendar distinct_platform (homeCal test_props) (blockerCal test_props)
      (homeEmail test_props) (workEmail test_props) False False (fst (snd stage3))
      [meeting ''ev2'' (Some ''confirmed'')] (snd (snd stage3)) = (fst stage4, fst (snd stage4), snd (snd stage4))"
    by (simp only: tp stage4_def[symmetric] prod.collapse)
  from fetches_precede_reconciliation[OF pr p1 p2, THEN conjunct1, rule_format, OF f1 f2, THEN conjunct1] c
  have "reactiveEntryPoint 5 distinct_platform (start_state []) = (Some (fst stage4), snd (snd stage4))"
    by (simp only: refl if_True)
  with a b c n show ?thesis by (intro conjI)
qed

subsection \<open>C3\<close>

text \<open>
  C3. The claim: two start (or end) values are equal iff both are absent, or both are
  present with identical raw fields; in particular two date-only values with different
  dates are unequal. The helper never reads \<^verbatim>\<open>date\<close>: the all-day values
  \<^verbatim>\<open>{date: "2025-06-01"}\<close> and \<^verbatim>\<open>{date: "2025-06-02"}\<close> compare equal.
\<close>

theorem areDatesEqual_ignores_date:
  "areDatesEqual
     (Some \<lparr>dateTime = None, date = Some ''2025-06-01'', timeZone = None\<rparr>)
     (Some \<lparr>dateTime = None, date = Some ''2025-06-02'', timeZone = None\<rparr>) = True"
  by simp

subsection \<open>C4\<close>

text \<open>
  C4. Reconciling (lines 135-231) a not-cancelled event whose matching block exists, with
  start, end and recurrence equal to the block's under the script's comparisons, issues
  no write: the outcome is the state right after the lookup, cache and tracker as the
  lookup left them. So a second run over an unchanged event adds no block and no update.
  Identical values always pass the comparisons (\<open>areDatesEqual_refl\<close>,
  \<open>areRecurrencesEqual_iff\<close>).
\<close>

theorem unchanged_event_no_write:
  assumes "checkForBlockOnCalendar P blockerCalId (id' ev) cache s = (Inr (Some block), cache1, s1)"
    and "status ev \<noteq> Some ''cancelled''"
    and "areDatesEqual (start block) (start ev)"
    and "areDatesEqual (end' block) (end' ev)"
    and "areRecurrencesEqual (recurrence block) (recurrence ev)"
  shows "reconcile P blockerCalId workEmail' ev cache tracker s = (Inr (), cache1, tracker, s1) \<and>
         filter is_write (new_calls s s1) = []"
  using assms calls_checkForBlockOnCalendar[OF assms(1)]
  by (simp add: reconcile_def new_calls_def is_write_def no_options_def)

theorem unchanged_event_no_write_witness:
  "fst (checkForBlockOnCalendar (platform_with [block_of (meeting ''ev1'' (Some ''confirmed''))] True)
          ''blocker'' ''ev1'' Map.empty (start_state []))
     = Inr (Some (block_of (meeting ''ev1'' (Some ''confirmed'')))) \<and>
   fst (reconcile (platform_with [block_of (meeting ''ev1'' (Some ''confirmed''))] True)
          ''blocker'' ''me@work'' (meeting ''ev1'' (Some ''confirmed'')) Map.empty Map.empty (start_state []))
     = Inr () \<and>
   calls (snd (snd (snd (reconcile (platform_with [block_of (meeting ''ev1'' (Some ''confirmed''))] True)
          ''blocker'' ''me@work'' (meeting ''ev1'' (Some ''confirmed'')) Map.empty Map.empty (start_state [])))))
     = [EventsList ''blocker'' (no_options\<lparr>q' := Some ''ev1''\<rparr>)]"
proof -
  let ?P = "platform_with [block_of (meeting ''ev1'' (Some ''confirmed''))] True"
  let ?ev = "meeting ''ev1'' (Some ''confirmed'')"
  let ?X = "checkForBlockOnCalendar ?P ''blocker'' (id' ?ev) Map.empty (start_state [])"
  have x: "fst ?X = Inr (Some (block_of ?ev))" by code_simp
  have i: "id' ?ev = ''ev1''" by code_simp
  have st: "status ?ev \<noteq> Some ''cancelled''" by code_simp
  have a: "areDatesEqual (start (block_of ?ev)) (start ?ev)" by code_simp
  have b: "areDatesEqual (end' (block_of ?ev)) (end' ?ev)" by code_simp
  have c: "areRecurrencesEqual (recurrence (block_of ?ev)) (recurrence ?ev)" by code_simp
  have k: "calls (snd (snd ?X)) = [EventsList ''blocker'' (no_options\<lparr>q' := Some ''ev1''\<rparr>)]"
    by code_simp
  from unchanged_event_no_write[OF triple_fst[OF x] st a b c, where workEmail' = "''me@work''"
      and tracker = Map.empty] x k i
  show ?thesis by simp
qed

subsection \<open>C5\<close>

text \<open>
  C5. An event whose id has the recurring-instance shape; \<open>p\<close> is the derived parent id.
  A parent block exists when the pass has it cached under \<open>p\<close>, or when \<open>p\<close> has not
  been looked up and the service's answer to the search for \<open>p\<close> holds a block whose
  description is exactly \<open>p\<close>. In the first case the instance is skipped with no call at
  all; in the second the only call is that search, the block is cached under \<open>p\<close>, and a
  further instance of the series is then skipped without another call. No write is made.

  When no parent block exists (\<open>p\<close> is cached as absent, or the answer to the search holds
  no exact match) and the instance has a start whose day offset is not above 90, the
  instance is processed exactly as an event without the instance shape is
  (\<open>ordinary_event\<close>), and every call of that processing is made for the instance's own
  id: the lookup searches for it, the insert describes the block by it, the attendee
  update writes the source event of that id, and an update or remove hits the block the
  lookup for that id found.
\<close>

theorem recurring_instance_resolution:
  fixes ev :: event
  defines "p \<equiv> strip_timestamp (id' ev)"
  assumes m: "matches_instance_id (id' ev)"
  shows
   "(cache p = Some (Some parentBlock) \<longrightarrow>
       processEvent P sourceCalId blockerCalId homeEmail' workEmail' addAttendees ev cache tracker s =
         (Inr (), cache, tracker, s)) \<and>
    (cache p = None \<longrightarrow>
     Events_list P blockerCalId (no_options\<lparr>q' := Some p\<rparr>) (world s) = (Inr blocks, w1) \<longrightarrow>
     matching_block blocks p = Some parentBlock \<longrightarrow>
       processEvent P sourceCalId blockerCalId homeEmail' workEmail' addAttendees ev cache tracker s =
         (Inr (), cache(p \<mapsto> Some parentBlock), tracker,
          \<lparr>world = w1, calls = calls s @ [EventsList blockerCalId (no_options\<lparr>q' := Some p\<rparr>)]\<rparr>) \<and>
       (matches_instance_id (id' ev2) \<longrightarrow> strip_timestamp (id' ev2) = p \<longrightarrow>
          processEvents P sourceCalId blockerCalId homeEmail' workEmail' addAttendees [ev, ev2]
              cache tracker s =
            (Inr (), cache(p \<mapsto> Some parentBlock), tracker,
             \<lparr>world = w1, calls = calls s @ [EventsList blockerCalId (no_options\<lparr>q' := Some p\<rparr>)]\<rparr>))) \<and>
    (cache p = Some None \<longrightarrow> start ev = Some st \<longrightarrow>
     \<not> greater_than (daysDifference (new_Date P (js_or (dateTime st) (date st)))
           (Date_now P (world s))) 90 \<longrightarrow>
       processEvent P sourceCalId blockerCalId homeEmail' workEmail' addAttendees ev cache tracker s =
         processOrdinary P sourceCalId blockerCalId homeEmail' workEmail' addAttendees ev
           cache tracker s) \<and>
    (cache p = None \<longrightarrow>
     Events_list P blockerCalId (no_options\<lparr>q' := Some p\<rparr>) (world s) = (Inr blocks, w1) \<longrightarrow>
     matching_block blocks p = None \<longrightarrow> start ev = Some st \<longrightarrow>
     \<not> greater_than (daysDifference (new_Date P (js_or (dateTime st) (date st))) (Date_now P w1)) 90 \<longrightarrow>
       processEvent P sourceCalId blockerCalId homeEmail' workEmail' addAttendees ev cache tracker s =
         processOrdinary P sourceCalId blockerCalId homeEmail' workEmail' addAttendees ev
           (cache(p \<mapsto> None)) tracker
           \<lparr>world = w1, calls = calls s @ [EventsList blockerCalId (no_options\<lparr>q' := Some p\<rparr>)]\<rparr>) \<and>
    (processOrdinary P sourceCalId blockerCalId homeEmail' workEmail' addAttendees ev
         cache0 tracker0 s0 = (r, cache2, tracker2, s2) \<longrightarrow>
       list_all (keyed_by sourceCalId blockerCalId (id' ev)
           (found_block_id P blockerCalId (id' ev) cache0
              (snd (addAttendee P sourceCalId homeEmail' addAttendees ev s0))))
         (new_calls s0 s2))"
proof (intro conjI impI)
  assume "cache p = Some (Some parentBlock)"
  from checkForBlockOnCalendar_cached[where cache = cache and i = p and P = P and cal = blockerCalId
      and s = s, OF this] m
  show "processEvent P sourceCalId blockerCalId homeEmail' workEmail' addAttendees ev cache tracker s =
         (Inr (), cache, tracker, s)"
    by (simp add: processEvent_def resolveInstance_def p_def)
next
  assume a: "cache p = None"
    "Events_list P blockerCalId (no_options\<lparr>q' := Some p\<rparr>) (world s) = (Inr blocks, w1)"
    "matching_block blocks p = Some parentBlock"
  let ?s1 = "\<lparr>world = w1, calls = calls s @ [EventsList blockerCalId (no_options\<lparr>q' := Some p\<rparr>)]\<rparr>"
  from checkForBlockOnCalendar_searched[where cache = cache and i = p, OF a(1,2)] a(3) m
  show first: "processEvent P sourceCalId blockerCalId homeEmail' workEmail' addAttendees ev cache tracker s =
         (Inr (), cache(p \<mapsto> Some parentBlock), tracker, ?s1)"
    by (simp add: processEvent_def resolveInstance_def p_def)
  assume b: "matches_instance_id (id' ev2)" "strip_timestamp (id' ev2) = p"
  have "(cache(p \<mapsto> Some parentBlock)) (strip_timestamp (id' ev2)) = Some (Some parentBlock)"
    using b(2) by simp
  from checkForBlockOnCalendar_cached[where cache = "cache(p \<mapsto> Some parentBlock)"
      and i = "strip_timestamp (id' ev2)" and P = P and cal = blockerCalId and s = ?s1, OF this] b(1)
  have "processEvent P sourceCalId blockerCalId homeEmail' workEmail' addAttendees ev2
          (cache(p \<mapsto> Some parentBlock)) tracker ?s1 =
         (Inr (), cache(p \<mapsto> Some parentBlock), tracker, ?s1)"
    by (simp add: processEvent_def resolveInstance_def)
  with first
  show "processEvents P sourceCalId blockerCalId homeEmail' workEmail' addAttendees [ev, ev2]
              cache tracker s = (Inr (), cache(p \<mapsto> Some parentBlock), tracker, ?s1)"
    by simp
next
  assume a: "cache p = Some None" "start ev = Some st"
    "\<not> greater_than (daysDifference (new_Date P (js_or (dateTime st) (date st)))
           (Date_now P (world s))) 90"
  from checkForBlockOnCalendar_cached[where cache = cache and i = p and P = P and cal = blockerCalId
      and s = s, OF a(1)] a(2,3) m
  show "processEvent P sourceCalId blockerCalId homeEmail' workEmail' addAttendees ev cache tracker s =
         processOrdinary P sourceCalId blockerCalId homeEmail' workEmail' addAttendees ev
           cache tracker s"
    by (simp add: processEvent_def resolveInstance_def p_def)
next
  assume a: "cache p = None"
    "Events_list P blockerCalId (no_options\<lparr>q' := Some p\<rparr>) (world s) = (Inr blocks, w1)"
    "matching_block blocks p = None" "start ev = Some st"
    "\<not> greater_than (daysDifference (new_Date P (js_or (dateTime st) (date st))) (Date_now P w1)) 90"
  from checkForBlockOnCalendar_searched[where cache = cache and i = p, OF a(1,2)] a(3,4,5) m
  show "processEvent P sourceCalId blockerCalId homeEmail' workEmail' addAttendees ev cache tracker s =
         processOrdinary P sourceCalId blockerCalId homeEmail' workEmail' addAttendees ev
           (cache(p \<mapsto> None)) tracker
           \<lparr>world = w1, calls = calls s @ [EventsList blockerCalId (no_options\<lparr>q' := Some p\<rparr>)]\<rparr>"
    by (simp add: processEvent_def resolveInstance_def p_def)
next
  assume "processOrdinary P sourceCalId blockerCalId homeEmail' workEmail' addAttendees ev
         cache0 tracker0 s0 = (r, cache2, tracker2, s2)"
  from calls_processOrdinary[OF this]
  show "list_all (keyed_by sourceCalId blockerCalId (id' ev)
           (found_block_id P blockerCalId (id' ev) cache0
              (snd (addAttendee P sourceCalId homeEmail' addAttendees ev s0))))
         (new_calls s0 s2)" .
qed

text \<open>
  With a block for \<^verbatim>\<open>parent123\<close> on the blocker calendar, two instances of the series
  cost one search and no write; without it, the instance 89 days out gets its own block.
\<close>

theorem recurring_instance_resolution_witness:
  "matches_instance_id (id' instance_near) \<and>
   strip_timestamp (id' instance_near) = ''parent123'' \<and>
   strip_timestamp (id' instance_next) = ''parent123'' \<and>
   matching_block \<lparr>items = Some [block_of (meeting ''parent123'' (Some ''confirmed''))],
        nextPageToken = None, nextSyncToken = None\<rparr> ''parent123''
     = Some (block_of (meeting ''parent123'' (Some ''confirmed''))) \<and>
   calls (snd (snd (snd (processEvents (platform_with [block_of (meeting ''parent123'' (Some ''confirmed''))] True)
          ''home'' ''blocker'' ''me@home'' ''me@work'' False [instance_near, instance_next]
          Map.empty Map.empty (start_state []))))) =
     [EventsList ''blocker'' (no_options\<lparr>q' := Some ''parent123''\<rparr>)] \<and>
   fst (snd (processEvents (platform_with [block_of (meeting ''parent123'' (Some ''confirmed''))] True)
          ''home'' ''blocker'' ''me@home'' ''me@work'' False [instance_near, instance_next]
          Map.empty Map.empty (start_state []))) ''parent123''
     = Some (Some (block_of (meeting ''parent123'' (Some ''confirmed'')))) \<and>
   matching_block \<lparr>items = Some [], nextPageToken = None, nextSyncToken = None\<rparr> ''parent123'' = None \<and>
   calls (snd (snd (snd (processEvent (platform_with [] True)
          ''home'' ''blocker'' ''me@home'' ''me@work'' False instance_near
          Map.empty Map.empty (start_state []))))) =
     [EventsList ''blocker'' (no_options\<lparr>q' := Some ''parent123''\<rparr>),
      EventsList ''blocker'' (no_options\<lparr>q' := Some ''parent123_20250601T090000Z''\<rparr>),
      EventsInsert \<lparr>new_summary = block_summary, new_description = ''parent123_20250601T090000Z'',
         new_start = timed ''2025-06-01T09:00:00Z'', new_end = timed ''2025-06-01T10:00:00Z'',
         new_attendees = [''me@work''], new_recurrence = None\<rparr> ''blocker'']"
proof -
  let ?pb = "block_of (meeting ''parent123'' (Some ''confirmed''))"
  let ?P = "platform_with [?pb] True"
  let ?Q = "platform_with [] True"
  let ?hit = "\<lparr>items = Some [?pb], nextPageToken = None, nextSyncToken = None\<rparr>"
  let ?miss = "\<lparr>items = Some ([] :: event list), nextPageToken = None, nextSyncToken = None\<rparr>"
  let ?L = "EventsList ''blocker'' (no_options\<lparr>q' := Some ''parent123''\<rparr>)"
  let ?st = "\<lparr>dateTime = Some ''2025-06-01T09:00:00Z'', date = None, timeZone = Some ''UTC''\<rparr>"
  have m: "matches_instance_id (id' instance_near)" "matches_instance_id (id' instance_next)"
    by code_simp+
  have p: "strip_timestamp (id' instance_near) = ''parent123''"
    "strip_timestamp (id' instance_next) = ''parent123''" by code_simp+
  have e: "(Map.empty :: cache) (strip_timestamp (id' instance_near)) = None" by simp
  have lp: "Events_list ?P ''blocker'' (no_options\<lparr>q' := Some (strip_timestamp (id' instance_near))\<rparr>)
              (world (start_state [])) = (Inr ?hit, [])" by code_simp
  have lq: "Events_list ?Q ''blocker'' (no_options\<lparr>q' := Some (strip_timestamp (id' instance_near))\<rparr>)
              (world (start_state [])) = (Inr ?miss, [])" by code_simp
  have mp: "matching_block ?hit (strip_timestamp (id' instance_near)) = Some ?pb" by code_simp
  have mq: "matching_block ?miss (strip_timestamp (id' instance_near)) = None" by code_simp
  have st: "start instance_near = Some ?st" by code_simp
  have near: "\<not> greater_than (daysDifference (new_Date ?Q (js_or (dateTime ?st) (date ?st)))
        (Date_now ?Q [])) 90" by code_simp
  have c0: "calls (start_state []) = []" by (simp add: start_state_def)
  have ord: "calls (snd (snd (snd (processOrdinary ?Q ''home'' ''blocker'' ''me@home'' ''me@work'' False instance_near
          (Map.empty(strip_timestamp (id' instance_near) \<mapsto> None)) Map.empty
          \<lparr>world = [], calls = calls (start_state []) @
             [EventsList ''blocker'' (no_options\<lparr>q' := Some (strip_timestamp (id' instance_near))\<rparr>)]\<rparr>)))) =
     [?L,
      EventsList ''blocker'' (no_options\<lparr>q' := Some ''parent123_20250601T090000Z''\<rparr>),
      EventsInsert \<lparr>new_summary = block_summary, new_description = ''parent123_20250601T090000Z'',
         new_start = timed ''2025-06-01T09:00:00Z'', new_end = timed ''2025-06-01T10:00:00Z'',
         new_attendees = [''me@work''], new_recurrence = None\<rparr> ''blocker'']"
    by (simp only: p c0 append_Nil) code_simp
  note hit = recurring_instance_resolution[OF m(1), where cache = Map.empty and P = ?P and blockerCalId = "''blocker''"
      and s = "start_state []" and blocks = ?hit and ?w1.0 = "[]" and parentBlock = ?pb
      and ?ev2.0 = instance_next and sourceCalId = "''home''" and homeEmail' = "''me@home''"
      and workEmail' = "''me@work''" and addAttendees = False and tracker = Map.empty]
  note miss = recurring_instance_resolution[OF m(1), where cache = Map.empty and P = ?Q and blockerCalId = "''blocker''"
      and s = "start_state []" and blocks = ?miss and ?w1.0 = "[]" and st = ?st
      and sourceCalId = "''home''" and homeEmail' = "''me@home''"
      and workEmail' = "''me@work''" and addAttendees = False and tracker = Map.empty]
  have same: "strip_timestamp (id' instance_next) = strip_timestamp (id' instance_near)"
    by (simp only: p)
  note two = hit[THEN conjunct2, THEN conjunct1, rule_format, OF e lp mp,
      THEN conjunct2, rule_format, OF m(2) same]
  note one = miss[THEN conjunct2, THEN conjunct2, THEN conjunct2, THEN conjunct1, rule_format,
      OF e lq mq st near]
  have a: "calls (snd (snd (snd (processEvents ?P ''home'' ''blocker'' ''me@home'' ''me@work'' False
              [instance_near, instance_next] Map.empty Map.empty (start_state []))))) = [?L]"
    by (simp only: two snd_conv p c0 append_Nil state.simps)
  have b: "fst (snd (processEvents ?P ''home'' ''blocker'' ''me@home'' ''me@work'' False
              [instance_near, instance_next] Map.empty Map.empty (start_state []))) ''parent123'' =
           Some (Some ?pb)"
    by (simp only: two snd_conv fst_conv p fun_upd_same)
  have c: "calls (snd (snd (snd (processEvent ?Q ''home'' ''blocker'' ''me@home'' ''me@work'' False
              instance_near Map.empty Map.empty (start_state []))))) =
     [?L,
      EventsList ''blocker'' (no_options\<lparr>q' := Some ''parent123_20250601T090000Z''\<rparr>),
      EventsInsert \<lparr>new_summary = block_summary, new_description = ''parent123_20250601T090000Z'',
         new_start = timed ''2025-06-01T09:00:00Z'', new_end = timed ''2025-06-01T10:00:00Z'',
         new_attendees = [''me@work''], new_recurrence = None\<rparr> ''blocker'']"
    by (simp only: one ord)
  from mp mq have mp': "matching_block ?hit ''parent123'' = Some ?pb"
    and mq': "matching_block ?miss ''parent123'' = None"
    by (simp_all only: p)
  show ?thesis
    by (intro conjI m(1) p a b c mp' mq')
qed

subsection \<open>C6\<close>

text \<open>
  C6. For a recurring instance without a parent block whose start is a valid date \<open>t0\<close>:
  if the floor of \<open>(t0 - now)\<close> in days is above 90 the instance is skipped without a
  write; if it is at most 90 the instance is processed as an ordinary event.
\<close>

theorem horizon_cutoff:
  assumes "matches_instance_id (id' ev)"
    and "checkForBlockOnCalendar P blockerCalId (strip_timestamp (id' ev)) cache s =
           (Inr None, cache1, s1)"
    and "start ev = Some st"
    and "new_Date P (js_or (dateTime st) (date st)) = Some t0"
  shows "(90 < (t0 - Date_now P (world s1)) div 86400000 \<longrightarrow>
            processEvent P sourceCalId blockerCalId homeEmail' workEmail' addAttendees ev cache tracker s =
              (Inr (), cache1, tracker, s1) \<and>
            filter is_write (new_calls s s1) = []) \<and>
         ((t0 - Date_now P (world s1)) div 86400000 \<le> 90 \<longrightarrow>
            processEvent P sourceCalId blockerCalId homeEmail' workEmail' addAttendees ev cache tracker s =
              processOrdinary P sourceCalId blockerCalId homeEmail' workEmail' addAttendees ev
                cache1 tracker s1)"
  using assms lookup_no_write[OF assms(2)]
  by (auto simp: processEvent_def resolveInstance_def daysDifference_def greater_than_def)

text \<open>The instance 91 days out is skipped; the one 89 days out gets its block.\<close>

theorem horizon_cutoff_witness:
  "matches_instance_id (id' instance_far) \<and> matches_instance_id (id' instance_near) \<and>
   fst (checkForBlockOnCalendar (platform_with [] True) ''blocker'' ''parent123'' Map.empty (start_state []))
     = Inr None \<and>
   (1748941200000 - 1741003200000) div 86400000 = (91 :: int) \<and>
   calls (snd (snd (snd (processEvent (platform_with [] True)
          ''home'' ''blocker'' ''me@home'' ''me@work'' False instance_far
          Map.empty Map.empty (start_state []))))) =
     [EventsList ''blocker'' (no_options\<lparr>q' := Some ''parent123''\<rparr>)] \<and>
   (1748768400000 - 1741003200000) div 86400000 = (89 :: int) \<and>
   calls (snd (snd (snd (processEvent (platform_with [] True)
          ''home'' ''blocker'' ''me@home'' ''me@work'' False instance_near
          Map.empty Map.empty (start_state []))))) =
     [EventsList ''blocker'' (no_options\<lparr>q' := Some ''parent123''\<rparr>),
      EventsList ''blocker'' (no_options\<lparr>q' := Some ''parent123_20250601T090000Z''\<rparr>),
      EventsInsert \<lparr>new_summary = block_summary, new_description = ''parent123_20250601T090000Z'',
         new_start = timed ''2025-06-01T09:00:00Z'', new_end = timed ''2025-06-01T10:00:00Z'',
         new_attendees = [''me@work''], new_recurrence = None\<rparr> ''blocker'']"
proof -
  let ?Q = "platform_with [] True"
  let ?Y = "checkForBlockOnCalendar ?Q ''blocker'' (strip_timestamp (id' instance_near)) Map.empty (start_state [])"
  let ?Z = "checkForBlockOnCalendar ?Q ''blocker'' (strip_timestamp (id' instance_far)) Map.empty (start_state [])"
  let ?near = "\<lparr>dateTime = Some ''2025-06-01T09:00:00Z'', date = None, timeZone = Some ''UTC''\<rparr>"
  let ?far = "\<lparr>dateTime = Some ''2025-06-03T09:00:00Z'', date = None, timeZone = Some ''UTC''\<rparr>"
  have m: "matches_instance_id (id' instance_near)" "matches_instance_id (id' instance_far)"
    by code_simp+
  have p: "strip_timestamp (id' instance_near) = ''parent123''"
    "strip_timestamp (id' instance_far) = ''parent123''" by code_simp+
  have y: "fst ?Y = Inr None" "fst ?Z = Inr None" by code_simp+
  have st: "start instance_near = Some ?near" "start instance_far = Some ?far" by code_simp+
  have d: "new_Date ?Q (js_or (dateTime ?near) (date ?near)) = Some 1748768400000"
    "new_Date ?Q (js_or (dateTime ?far) (date ?far)) = Some 1748941200000" by code_simp+
  have now: "Date_now ?Q (world (snd (snd ?Y))) = 1741003200000"
    "Date_now ?Q (world (snd (snd ?Z))) = 1741003200000" by code_simp+
  have zs: "calls (snd (snd ?Z)) = [EventsList ''blocker'' (no_options\<lparr>q' := Some ''parent123''\<rparr>)]"
    by code_simp
  have ord: "calls (snd (snd (snd (processOrdinary ?Q ''home'' ''blocker'' ''me@home'' ''me@work'' False instance_near
          (fst (snd ?Y)) Map.empty (snd (snd ?Y)))))) =
     [EventsList ''blocker'' (no_options\<lparr>q' := Some ''parent123''\<rparr>),
      EventsList ''blocker'' (no_options\<lparr>q' := Some ''parent123_20250601T090000Z''\<rparr>),
      EventsInsert \<lparr>new_summary = block_summary, new_description = ''parent123_20250601T090000Z'',
         new_start = timed ''2025-06-01T09:00:00Z'', new_end = timed ''2025-06-01T10:00:00Z'',
         new_attendees = [''me@work''], new_recurrence = None\<rparr> ''blocker'']"
    by code_simp
  from horizon_cutoff[OF m(2) triple_fst[OF y(2)] st(2) d(2), where sourceCalId = "''home''"
        and homeEmail' = "''me@home''" and workEmail' = "''me@work''" and addAttendees = False
        and tracker = Map.empty]
    horizon_cutoff[OF m(1) triple_fst[OF y(1)] st(1) d(1), where sourceCalId = "''home''"
        and homeEmail' = "''me@home''" and workEmail' = "''me@work''" and addAttendees = False
        and tracker = Map.empty]
    m p y now zs ord
  show ?thesis by simp
qed

subsection \<open>C7\<close>

text \<open>
  C7. The loop of \<^verbatim>\<open>fetchEventsByToken\<close> is at any page (any page token, any events
  gathered so far; the first request is the page without a token), and the request for
  that page fails with \<open>message\<close>. If the message says that the sync token is no longer
  valid, the function's result is that of \<^verbatim>\<open>fetchEventsByToken(calendarId, true)\<close>, run in
  the world where the token map has been written back without the calendar's entry; the
  next two calls in the log are that write and then the first request of the full resync
  (lower bound thirty days back, no upper bound, no token). If moreover the service
  reports an invalid token only for a request that carries one, all later calls are
  further pages or the write of the new token: the fetch is started over exactly once.
  Any other message is thrown on right after the failed request, with no further call.
  Holds for every amount of fuel from two on, whether or not the paging ends.
\<close>

theorem token_fallback:
  assumes fail: "Events_list P calendarId (options\<lparr>pageToken := pageToken'\<rparr>) (world s) = (Inl message, w1)"
    and w2: "w2 = setProperty P ''syncTokens'' (JSON_stringify P (AList.delete calendarId syncTokens)) w1"
    and run: "fetchEventsByToken_pages (Suc (Suc fuel)) P calendarId syncTokens options pageToken' evts s = (r, s1)"
  shows "if string_includes message ''Sync token is no longer valid''
         then (r, s1) = fetchEventsByToken (Suc fuel) P calendarId True
                 \<lparr>world = w2, calls = calls s @
                    [EventsList calendarId (options\<lparr>pageToken := pageToken'\<rparr>),
                     SetProperty ''syncTokens'' (JSON_stringify P (AList.delete calendarId syncTokens))]\<rparr> \<and>
              (\<exists>rest. calls s1 = calls s @
                 [EventsList calendarId (options\<lparr>pageToken := pageToken'\<rparr>),
                  SetProperty ''syncTokens'' (JSON_stringify P (AList.delete calendarId syncTokens)),
                  EventsList calendarId \<lparr>q' = None, syncToken = None,
                     timeMin = Some (Date_toISOString P (getRelativeDate P (- 30) 0 w2)),
                     timeMax = None, maxResults = Some 100, pageToken = None\<rparr>] @ rest \<and>
                 ((\<forall>cal opts w m w'. Events_list P cal opts w = (Inl m, w') \<longrightarrow>
                      string_includes m ''Sync token is no longer valid'' \<longrightarrow> syncToken opts \<noteq> None)
                   \<longrightarrow> list_all is_later_page rest))
         else r = Some (Inl (Exception message)) \<and>
              s1 = \<lparr>world = w1, calls = calls s @
                     [EventsList calendarId (options\<lparr>pageToken := pageToken'\<rparr>)]\<rparr>"
proof -
  let ?req = "EventsList calendarId (options\<lparr>pageToken := pageToken'\<rparr>)"
  let ?s0 = "\<lparr>world = w1, calls = calls s @ [?req]\<rparr>"
  have l: "Calendar_Events_list P calendarId (options\<lparr>pageToken := pageToken'\<rparr>) s = (Inl message, ?s0)"
    using fail by (simp add: Calendar_Events_list_def invoke_def)
  note step = pages_fail[OF l, of "Suc fuel" syncTokens evts]
  show ?thesis
  proof (cases "string_includes message ''Sync token is no longer valid''")
    case False
    with run step show ?thesis by (simp del: fetchEventsByToken.simps fetchEventsByToken_pages.simps)
  next
    case True
    define s2 where "s2 = \<lparr>world = w2, calls = calls s @ [?req,
        SetProperty ''syncTokens'' (JSON_stringify P (AList.delete calendarId syncTokens))]\<rparr>"
    let ?full = "token_options P calendarId True (read_syncTokens P (world s2)) (world s2)"
    have s2: "properties_setProperty P ''syncTokens'' (JSON_stringify P (AList.delete calendarId syncTokens)) ?s0 = s2"
      by (simp add: s2_def properties_setProperty_def w2)
    from True run step s2
    have retry: "(r, s1) = fetchEventsByToken (Suc fuel) P calendarId True s2"
      by (simp del: fetchEventsByToken.simps fetchEventsByToken_pages.simps)
    then have pg: "fetchEventsByToken_pages (Suc fuel) P calendarId (read_syncTokens P (world s2)) ?full None [] s2 = (r, s1)"
      by (simp only: fetchEventsByToken_unfold)
    have full: "?full\<lparr>pageToken := None\<rparr> = \<lparr>q' = None, syncToken = None,
            timeMin = Some (Date_toISOString P (getRelativeDate P (- 30) 0 w2)),
            timeMax = None, maxResults = Some 100, pageToken = None\<rparr>"
      by (simp add: token_options_def no_options_def s2_def)
    from token_pages_first[OF pg] obtain cs where cs:
      "calls s1 = calls s2 @ cs" "cs \<noteq> []" "hd cs = EventsList calendarId (?full\<lparr>pageToken := None\<rparr>)"
      by auto
    then have shape: "calls s1 = calls s2 @ [EventsList calendarId (?full\<lparr>pageToken := None\<rparr>)] @ tl cs"
      by (cases cs) auto
    have later: "list_all is_later_page (tl cs)"
      if contract: "\<forall>cal opts w m w'. Events_list P cal opts w = (Inl m, w') \<longrightarrow>
                      string_includes m ''Sync token is no longer valid'' \<longrightarrow> syncToken opts \<noteq> None"
    proof -
      from pg have "\<exists>cs. calls s1 = calls s2 @ cs \<and> list_all is_later_page (tl cs) \<and> (Suc fuel = 0 \<longrightarrow> cs = []) \<and>
          (0 < Suc fuel \<longrightarrow> cs \<noteq> [] \<and> hd cs = EventsList calendarId (?full\<lparr>pageToken := None\<rparr>))"
      proof (rule full_pages[rotated 2])
        show "\<And>cal opts w message w1. Events_list P cal opts w = (Inl message, w1) \<Longrightarrow>
          string_includes message ''Sync token is no longer valid'' \<Longrightarrow> syncToken opts \<noteq> None"
          using contract by blast
        show "syncToken ?full = None" by (simp add: token_options_def no_options_def)
      qed
      with cs(1) show ?thesis by auto
    qed
    from shape have shape': "calls s1 = calls s @ [?req,
        SetProperty ''syncTokens'' (JSON_stringify P (AList.delete calendarId syncTokens)),
        EventsList calendarId \<lparr>q' = None, syncToken = None,
            timeMin = Some (Date_toISOString P (getRelativeDate P (- 30) 0 w2)),
            timeMax = None, maxResults = Some 100, pageToken = None\<rparr>] @ tl cs"
      by (simp only: full) (simp add: s2_def)
    from retry have retry': "(r, s1) = fetchEventsByToken (Suc fuel) P calendarId True
        \<lparr>world = w2, calls = calls s @ [?req,
           SetProperty ''syncTokens'' (JSON_stringify P (AList.delete calendarId syncTokens))]\<rparr>"
      by (simp only: s2_def)
    have "\<exists>rest. calls s1 = calls s @ [?req,
        SetProperty ''syncTokens'' (JSON_stringify P (AList.delete calendarId syncTokens)),
        EventsList calendarId \<lparr>q' = None, syncToken = None,
            timeMin = Some (Date_toISOString P (getRelativeDate P (- 30) 0 w2)),
            timeMax = None, maxResults = Some 100, pageToken = None\<rparr>] @ rest \<and>
        ((\<forall>cal opts w m w'. Events_list P cal opts w = (Inl m, w') \<longrightarrow>
                      string_includes m ''Sync token is no longer valid'' \<longrightarrow> syncToken opts \<noteq> None)
           \<longrightarrow> list_all is_later_page rest)"
      using shape' later by (intro exI[of _ "tl cs"] conjI impI)
    with retry' True show ?thesis by (simp only: if_True)
  qed
qed

text \<open>
  An incremental fetch of the scheduler calendar whose second page fails: with the
  token-invalid message the map is written back empty and the full resync follows; with
  another message the exception leaves after the second request.
\<close>

theorem token_fallback_witness:
  "fetchEventsByToken 5 (test_platform (answer_paged ''Sync token is no longer valid, a full sync is required.'') True)
      ''scheduler'' False (start_state [(''syncTokens'', ''scheduler=tok1;'')]) =
   (Some (Inr [meeting ''ev1'' (Some ''confirmed'')]),
    \<lparr>world = [(''syncTokens'', ''scheduler=tok2;'')],
     calls =
     [EventsList ''scheduler'' \<lparr>q' = None, syncToken = Some ''tok1'', timeMin = None, timeMax = None,
         maxResults = Some 100, pageToken = None\<rparr>,
      EventsList ''scheduler'' \<lparr>q' = None, syncToken = Some ''tok1'', timeMin = None, timeMax = None,
         maxResults = Some 100, pageToken = Some ''p2''\<rparr>,
      SetProperty ''syncTokens'' [],
      EventsList ''scheduler'' \<lparr>q' = None, syncToken = None, timeMin = Some ''2025-02-01T00:00:00.000Z'',
         timeMax = None, maxResults = Some 100, pageToken = None\<rparr>,
      SetProperty ''syncTokens'' ''scheduler=tok2;'']\<rparr>) \<and>
   fetchEventsByToken 5 (test_platform (answer_paged ''Backend Error'') True)
      ''scheduler'' False (start_state [(''syncTokens'', ''scheduler=tok1;'')]) =
   (Some (Inl (Exception ''Backend Error'')),
    \<lparr>world = [(''syncTokens'', ''scheduler=tok1;'')],
     calls =
     [EventsList ''scheduler'' \<lparr>q' = None, syncToken = Some ''tok1'', timeMin = None, timeMax = None,
         maxResults = Some 100, pageToken = None\<rparr>,
      EventsList ''scheduler'' \<lparr>q' = None, syncToken = Some ''tok1'', timeMin = None, timeMax = None,
         maxResults = Some 100, pageToken = Some ''p2''\<rparr>]\<rparr>)"
proof -
  let ?stale = "''Sync token is no longer valid, a full sync is required.''"
  let ?P = "test_platform (answer_paged ?stale) True"
  let ?Q = "test_platform (answer_paged ''Backend Error'') True"
  let ?store = "[(''syncTokens'', ''scheduler=tok1;'')]"
  let ?inc = "\<lparr>q' = None, syncToken = Some ''tok1'', timeMin = None, timeMax = None,
         maxResults = Some 100, pageToken = None\<rparr>"
  let ?s = "\<lparr>world = ?store, calls = [EventsList ''scheduler'' ?inc]\<rparr>"
  let ?toks = "[(''scheduler'', ''tok1'')]"
  let ?evts = "[meeting ''ev0'' (Some ''confirmed'')]"
  let ?runP = "fetchEventsByToken_pages (Suc (Suc 2)) ?P ''scheduler'' ?toks ?inc (Some ''p2'') ?evts ?s"
  let ?runQ = "fetchEventsByToken_pages (Suc (Suc 2)) ?Q ''scheduler'' ?toks ?inc (Some ''p2'') ?evts ?s"
  have topP: "fetchEventsByToken 5 ?P ''scheduler'' False (start_state ?store) = ?runP" by code_simp
  have topQ: "fetchEventsByToken 5 ?Q ''scheduler'' False (start_state ?store) = ?runQ" by code_simp
  have failP: "Events_list ?P ''scheduler'' (?inc\<lparr>pageToken := Some ''p2''\<rparr>) (world ?s) = (Inl ?stale, ?store)"
    by code_simp
  have failQ: "Events_list ?Q ''scheduler'' (?inc\<lparr>pageToken := Some ''p2''\<rparr>) (world ?s) = (Inl ''Backend Error'', ?store)"
    by code_simp
  have yes: "string_includes ?stale ''Sync token is no longer valid''" by code_simp
  have no: "\<not> string_includes ''Backend Error'' ''Sync token is no longer valid''" by code_simp
  have retry: "fetchEventsByToken (Suc 2) ?P ''scheduler'' True
       \<lparr>world = setProperty ?P ''syncTokens'' (JSON_stringify ?P (AList.delete ''scheduler'' ?toks)) ?store,
        calls = calls ?s @ [EventsList ''scheduler'' (?inc\<lparr>pageToken := Some ''p2''\<rparr>),
           SetProperty ''syncTokens'' (JSON_stringify ?P (AList.delete ''scheduler'' ?toks))]\<rparr> =
     (Some (Inr [meeting ''ev1'' (Some ''confirmed'')]),
      \<lparr>world = [(''syncTokens'', ''scheduler=tok2;'')],
       calls =
       [EventsList ''scheduler'' ?inc,
        EventsList ''scheduler'' \<lparr>q' = None, syncToken = Some ''tok1'', timeMin = None, timeMax = None,
           maxResults = Some 100, pageToken = Some ''p2''\<rparr>,
        SetProperty ''syncTokens'' [],
        EventsList ''scheduler'' \<lparr>q' = None, syncToken = None, timeMin = Some ''2025-02-01T00:00:00.000Z'',
           timeMax = None, maxResults = Some 100, pageToken = None\<rparr>,
        SetProperty ''syncTokens'' ''scheduler=tok2;'']\<rparr>)"
    by code_simp
  from token_fallback[OF failP refl, where fuel = 2 and evts = ?evts and r = "fst ?runP" and ?s1.0 = "snd ?runP"] yes retry
  have P: "?runP = (Some (Inr [meeting ''ev1'' (Some ''confirmed'')]),
      \<lparr>world = [(''syncTokens'', ''scheduler=tok2;'')],
       calls =
       [EventsList ''scheduler'' ?inc,
        EventsList ''scheduler'' \<lparr>q' = None, syncToken = Some ''tok1'', timeMin = None, timeMax = None,
           maxResults = Some 100, pageToken = Some ''p2''\<rparr>,
        SetProperty ''syncTokens'' [],
        EventsList ''scheduler'' \<lparr>q' = None, syncToken = None, timeMin = Some ''2025-02-01T00:00:00.000Z'',
           timeMax = None, maxResults = Some 100, pageToken = None\<rparr>,
        SetProperty ''syncTokens'' ''scheduler=tok2;'']\<rparr>)"
    by (simp only: prod.collapse if_True simp_thms)
  from token_fallback[OF failQ refl, where fuel = 2 and evts = ?evts and r = "fst ?runQ" and ?s1.0 = "snd ?runQ"] no
  have Q: "?runQ = (Some (Inl (Exception ''Backend Error'')),
      \<lparr>world = ?store, calls = calls ?s @ [EventsList ''scheduler'' (?inc\<lparr>pageToken := Some ''p2''\<rparr>)]\<rparr>)"
    by (simp only: prod.collapse if_False simp_thms prod_eq_iff fst_conv snd_conv)
  from P Q topP topQ show ?thesis by simp
qed

subsection \<open>C8\<close>

text \<open>
  C8. Nothing is assumed about the writes: every insert, update and remove may fail.
  If no list request fails and every recurring instance carries a start, the loop over
  any list of events ends normally, and it has reached every event: each event's first
  lookup is in the cache at the end. So is the whole of \<^verbatim>\<open>processCalendar\<close>.
\<close>

theorem write_failure_never_halts:
  assumes ok: "\<And>cal opts w. \<not> isl (fst (Events_list P cal opts w))"
    and st: "\<And>ev. ev \<in> set events \<Longrightarrow> matches_instance_id (id' ev) \<Longrightarrow> start ev \<noteq> None"
  shows "(\<exists>cache1 tracker1 s1.
            processEvents P sourceCalId blockerCalId homeEmail' workEmail' addAttendees events
              cache tracker s = (Inr (), cache1, tracker1, s1) \<and>
            (\<forall>ev \<in> set events. cache1 (first_lookup ev) \<noteq> None)) \<and>
         fst (processCalendar P sourceCalId blockerCalId homeEmail' workEmail' addAttendees False
                tracker events s) = Inr ()"
proof -
  have loop: "\<exists>c1 t1 s1. processEvents P sourceCalId blockerCalId homeEmail' workEmail' addAttendees events c t s = (Inr (), c1, t1, s1) \<and>
           (\<forall>ev \<in> set events. c1 (first_lookup ev) \<noteq> None) \<and> (\<forall>k. c k \<noteq> None \<longrightarrow> c1 k \<noteq> None)"
    for c t s
    using st
  proof (induction events arbitrary: c t s)
    case Nil
    then show ?case by simp
  next
    case (Cons ev events)
    obtain r0 c0 t0 s0 where e: "processEvent P sourceCalId blockerCalId homeEmail' workEmail' addAttendees ev c t s = (r0, c0, t0, s0)"
      by (cases "processEvent P sourceCalId blockerCalId homeEmail' workEmail' addAttendees ev c t s")
    from processEvent_ok[OF ok _ e] Cons.prems
    have k: "r0 = Inr ()" "c0 (first_lookup ev) \<noteq> None" "\<forall>k. c k \<noteq> None \<longrightarrow> c0 k \<noteq> None"
      by auto
    from Cons.IH[of c0 t0 s0] Cons.prems obtain c1 t1 s1 where
      r: "processEvents P sourceCalId blockerCalId homeEmail' workEmail' addAttendees events c0 t0 s0 = (Inr (), c1, t1, s1)"
        "\<forall>ev \<in> set events. c1 (first_lookup ev) \<noteq> None" "\<forall>k. c0 k \<noteq> None \<longrightarrow> c1 k \<noteq> None"
      by auto
    with e k show ?case by auto
  qed
  from loop[of cache tracker s] loop[of Map.empty tracker s] show ?thesis
    by (auto simp: processCalendar_def)
qed

text \<open>
  Every write fails on this platform: the create for \<^verbatim>\<open>a\<close>, the delete for the cancelled
  \<^verbatim>\<open>b\<close> and the update for the changed \<^verbatim>\<open>c\<close> are each attempted, and the loop ends normally.
\<close>

theorem write_failure_never_halts_witness:
  "(\<forall>cal opts w. \<not> isl (fst (Events_list (platform_with failing_blocks False) cal opts w))) \<and>
   Events_insert (platform_with failing_blocks False)
      \<lparr>new_summary = block_summary, new_description = ''a'',
        new_start = timed ''2025-06-01T09:00:00Z'', new_end = timed ''2025-06-01T10:00:00Z'',
        new_attendees = [''me@work''], new_recurrence = None\<rparr> ''blocker'' [] = (Inl ''write refused'', []) \<and>
   fst (processCalendar (platform_with failing_blocks False) ''home'' ''blocker'' ''me@home'' ''me@work''
          False False Map.empty failing_events (start_state [])) = Inr () \<and>
   calls (snd (snd (processCalendar (platform_with failing_blocks False) ''home'' ''blocker'' ''me@home'' ''me@work''
          False False Map.empty failing_events (start_state [])))) =
     [EventsList ''blocker'' (no_options\<lparr>q' := Some ''a''\<rparr>),
      EventsInsert \<lparr>new_summary = block_summary, new_description = ''a'',
         new_start = timed ''2025-06-01T09:00:00Z'', new_end = timed ''2025-06-01T10:00:00Z'',
         new_attendees = [''me@work''], new_recurrence = None\<rparr> ''blocker'',
      EventsList ''blocker'' (no_options\<lparr>q' := Some ''b''\<rparr>),
      EventsRemove ''blocker'' ''blk-b'',
      EventsList ''blocker'' (no_options\<lparr>q' := Some ''c''\<rparr>),
      EventsUpdate (block_of (meeting ''c'' (Some ''confirmed''))) ''blocker'' ''blk-c'']"
proof -
  let ?P = "platform_with failing_blocks False"
  have ok: "\<not> isl (fst (Events_list ?P cal opts w))" for cal opts w
    by (simp add: platform_with_def test_platform_def answer_blocks_def page_def)
  have st: "ev \<in> set failing_events \<Longrightarrow> matches_instance_id (id' ev) \<Longrightarrow> start ev \<noteq> None" for ev
    by (auto simp: failing_events_def meeting_def timed_def)
  have ins: "Events_insert ?P
      \<lparr>new_summary = block_summary, new_description = ''a'',
        new_start = timed ''2025-06-01T09:00:00Z'', new_end = timed ''2025-06-01T10:00:00Z'',
        new_attendees = [''me@work''], new_recurrence = None\<rparr> ''blocker'' [] = (Inl ''write refused'', [])"
    by code_simp
  have log: "calls (snd (snd (processCalendar ?P ''home'' ''blocker'' ''me@home'' ''me@work''
          False False Map.empty failing_events (start_state [])))) =
     [EventsList ''blocker'' (no_options\<lparr>q' := Some ''a''\<rparr>),
      EventsInsert \<lparr>new_summary = block_summary, new_description = ''a'',
         new_start = timed ''2025-06-01T09:00:00Z'', new_end = timed ''2025-06-01T10:00:00Z'',
         new_attendees = [''me@work''], new_recurrence = None\<rparr> ''blocker'',
      EventsList ''blocker'' (no_options\<lparr>q' := Some ''b''\<rparr>),
      EventsRemove ''blocker'' ''blk-b'',
      EventsList ''blocker'' (no_options\<lparr>q' := Some ''c''\<rparr>),
      EventsUpdate (block_of (meeting ''c'' (Some ''confirmed''))) ''blocker'' ''blk-c'']"
    by code_simp
  from write_failure_never_halts[OF ok st, where sourceCalId = "''home''"
      and blockerCalId = "''blocker''" and homeEmail' = "''me@home''" and workEmail' = "''me@work''"
      and addAttendees = False and tracker = Map.empty and s = "start_state []"]
    ok ins log
  show ?thesis by simp
qed

subsection \<open>C9\<close>

text \<open>
  C9. Reconciling (lines 135-231) a cancelled event whose matching block exists does,
  after the lookup, exactly one thing to the service: it invokes the remove of that block
  on the blocker calendar. The outcome is given in full: the world is the one the
  service's remove leaves (whether it carried the remove out or threw), the log has that
  one more call, the tracker is untouched, and the cache holds \<^verbatim>\<open>null\<close> for the event's id.
\<close>

theorem cancelled_event_deletes_block:
  assumes "checkForBlockOnCalendar P blockerCalId (id' ev) cache s = (Inr (Some block), cache1, s1)"
    and "status ev = Some ''cancelled''"
  shows "reconcile P blockerCalId workEmail' ev cache tracker s =
           (Inr (), cache1(id' ev \<mapsto> None), tracker,
            \<lparr>world = snd (Events_remove P blockerCalId (id' block) (world s1)),
             calls = calls s1 @ [EventsRemove blockerCalId (id' block)]\<rparr>)"
  using assms by (simp add: reconcile_def deleteEvent_eq)

theorem cancelled_event_deletes_block_witness:
  "fst (checkForBlockOnCalendar (platform_with [block_of (meeting ''ev1'' (Some ''confirmed''))] True)
          ''blocker'' ''ev1'' Map.empty (start_state []))
     = Inr (Some (block_of (meeting ''ev1'' (Some ''confirmed'')))) \<and>
   calls (snd (snd (snd (reconcile (platform_with [block_of (meeting ''ev1'' (Some ''confirmed''))] True)
          ''blocker'' ''me@work'' (meeting ''ev1'' (Some ''cancelled'')) Map.empty Map.empty (start_state [])))))
     = [EventsList ''blocker'' (no_options\<lparr>q' := Some ''ev1''\<rparr>), EventsRemove ''blocker'' ''blk-ev1''] \<and>
   fst (snd (reconcile (platform_with [block_of (meeting ''ev1'' (Some ''confirmed''))] True)
          ''blocker'' ''me@work'' (meeting ''ev1'' (Some ''cancelled'')) Map.empty Map.empty (start_state [])))
     ''ev1'' = Some None"
proof -
  let ?P = "platform_with [block_of (meeting ''ev1'' (Some ''confirmed''))] True"
  let ?ev = "meeting ''ev1'' (Some ''cancelled'')"
  let ?X = "checkForBlockOnCalendar ?P ''blocker'' (id' ?ev) Map.empty (start_state [])"
  have x: "fst ?X = Inr (Some (block_of (meeting ''ev1'' (Some ''confirmed''))))" by code_simp
  have i: "id' ?ev = ''ev1''" "id' (block_of (meeting ''ev1'' (Some ''confirmed''))) = ''blk-ev1''"
    by code_simp+
  have st: "status ?ev = Some ''cancelled''" by code_simp
  have k: "calls (snd (snd ?X)) = [EventsList ''blocker'' (no_options\<lparr>q' := Some ''ev1''\<rparr>)]"
    by code_simp
  from cancelled_event_deletes_block[OF triple_fst[OF x] st, where workEmail' = "''me@work''"
      and tracker = Map.empty]
    x k i
  show ?thesis by auto
qed

subsection \<open>C10\<close>

text \<open>
  C10. For an event whose id has the recurring-instance shape and whose parent has no
  block, the loop reads \<^verbatim>\<open>event.start.dateTime\<close> without a check: when the event has no
  start, a \<^verbatim>\<open>TypeError\<close> leaves the loop right after the parent lookup, before any write,
  and the events behind it are not processed.
\<close>

theorem instance_without_start_throws:
  assumes "matches_instance_id (id' ev)"
    and "checkForBlockOnCalendar P blockerCalId (strip_timestamp (id' ev)) cache s =
           (Inr None, cache1, s1)"
    and "start ev = None"
  shows "processEvents P sourceCalId blockerCalId homeEmail' workEmail' addAttendees (ev # events)
           cache tracker s = (Inl TypeError, cache1, tracker, s1) \<and>
         filter is_write (new_calls s s1) = []"
  using assms lookup_no_write[OF assms(2)]
  by (auto simp: processEvent_def resolveInstance_def)

theorem instance_without_start_throws_witness:
  "matches_instance_id (id' cancelled_instance) \<and> start cancelled_instance = None \<and>
   fst (checkForBlockOnCalendar (platform_with [] True) ''blocker'' ''parent123'' Map.empty (start_state []))
     = Inr None \<and>
   fst (processEvents (platform_with [] True) ''home'' ''blocker'' ''me@home'' ''me@work'' False
          [cancelled_instance, meeting ''ev1'' (Some ''confirmed'')] Map.empty Map.empty (start_state []))
     = Inl TypeError \<and>
   calls (snd (snd (snd (processEvents (platform_with [] True) ''home'' ''blocker'' ''me@home'' ''me@work'' False
          [cancelled_instance, meeting ''ev1'' (Some ''confirmed'')] Map.empty Map.empty (start_state [])))))
     = [EventsList ''blocker'' (no_options\<lparr>q' := Some ''parent123''\<rparr>)]"
proof -
  let ?Q = "platform_with [] True"
  let ?X = "checkForBlockOnCalendar ?Q ''blocker'' (strip_timestamp (id' cancelled_instance)) Map.empty (start_state [])"
  have m: "matches_instance_id (id' cancelled_instance)" by code_simp
  have p: "strip_timestamp (id' cancelled_instance) = ''parent123''" by code_simp
  have x: "fst ?X = Inr None" by code_simp
  have st: "start cancelled_instance = None" by code_simp
  have k: "calls (snd (snd ?X)) = [EventsList ''blocker'' (no_options\<lparr>q' := Some ''parent123''\<rparr>)]"
    by code_simp
  from instance_without_start_throws[OF m triple_fst[OF x] st, where sourceCalId = "''home''"
      and homeEmail' = "''me@home''" and workEmail' = "''me@work''" and addAttendees = False
      and tracker = Map.empty and events = "[meeting ''ev1'' (Some ''confirmed'')]"]
    m p x st k
  show ?thesis by simp
qed

end
